theory Spec2Isabelle
  imports Complex_Main "HOL-Library.Char_ord" "HOL-Library.List_Lexorder" "HOL-Library.Multiset"
begin

section \<open>Python values used by the rasterizer\<close>

text \<open>
  The development embeds \<^verbatim>\<open>src/tools/svg_to_png_playwright.py\<close>. Exceptions are values;
  every constructor carries the text that \<^verbatim>\<open>str(e)\<close> returns. Only subclasses of
  \<^verbatim>\<open>Exception\<close> occur: they are what the calls of the script raise, and what its
  \<^verbatim>\<open>except Exception\<close> clause catches.
\<close>

datatype exn =
    ValueError string
  | OverflowError string
  | AttributeError string
  | OSError string
  | EngineError string

fun str_exn :: "exn \<Rightarrow> string" where
  "str_exn (ValueError m) = m"
| "str_exn (OverflowError m) = m"
| "str_exn (AttributeError m) = m"
| "str_exn (OSError m) = m"
| "str_exn (EngineError m) = m"

text \<open>
  Python numbers. A float is a rational or one of the three special values; the integer
  literals 750 and 1000 of the script are \<open>Fin 750\<close> and \<open>Fin 1000\<close>. Rounding to
  binary64, overflow of a huge finite value to infinity and the sign of zero are not
  modelled: products are exact.
\<close>

datatype pynum = Fin rat | PosInf | NegInf | NaN

fun py_mul :: "pynum \<Rightarrow> pynum \<Rightarrow> pynum" where
  "py_mul (Fin a) (Fin b) = Fin (a * b)"
| "py_mul NaN _ = NaN"
| "py_mul _ NaN = NaN"
| "py_mul PosInf (Fin b) = (if b = 0 then NaN else if 0 < b then PosInf else NegInf)"
| "py_mul NegInf (Fin b) = (if b = 0 then NaN else if 0 < b then NegInf else PosInf)"
| "py_mul (Fin a) PosInf = (if a = 0 then NaN else if 0 < a then PosInf else NegInf)"
| "py_mul (Fin a) NegInf = (if a = 0 then NaN else if 0 < a then NegInf else PosInf)"
| "py_mul PosInf PosInf = PosInf"
| "py_mul PosInf NegInf = NegInf"
| "py_mul NegInf PosInf = NegInf"
| "py_mul NegInf NegInf = PosInf"

text \<open>\<^verbatim>\<open>int(x)\<close> truncates towards zero and raises on the special values.\<close>

definition trunc_rat :: "rat \<Rightarrow> int" where
  "trunc_rat r = (if 0 \<le> r then \<lfloor>r\<rfloor> else \<lceil>r\<rceil>)"

fun py_int :: "pynum \<Rightarrow> exn + int" where
  "py_int (Fin r) = Inr (trunc_rat r)"
| "py_int PosInf = Inl (OverflowError ''cannot convert float infinity to integer'')"
| "py_int NegInf = Inl (OverflowError ''cannot convert float infinity to integer'')"
| "py_int NaN = Inl (ValueError ''cannot convert float NaN to integer'')"


section \<open>Text: the viewBox search, \<^verbatim>\<open>str.split\<close> and \<^verbatim>\<open>float\<close>\<close>

text \<open>
  A Python \<^verbatim>\<open>str\<close> is modelled by its UTF-8 bytes. The pattern and the characters
  Python treats as ASCII white space and digits are ASCII, and no byte of a multi-byte
  UTF-8 sequence is ASCII; white space and digits beyond ASCII are not recognised.
\<close>

definition is_quote :: "char \<Rightarrow> bool" where
  "is_quote c \<longleftrightarrow> c = CHR 0x22 \<or> c = CHR 0x27"

text \<open>
  \<^verbatim>\<open>viewBox=["\']([^"\']+)["\']\<close> matched at the start of \<open>s\<close>; the result is group 1.
  The class \<^verbatim>\<open>[^"\']+\<close> is greedy and the next character must be a quote, so the group
  is the longest run of non-quote characters, which must be non-empty and followed by a
  quote of either kind.
\<close>

definition match_here :: "string \<Rightarrow> string option" where
  "match_here s =
     (if take 8 s = ''viewBox='' then
        (case drop 8 s of
           [] \<Rightarrow> None
         | q # rest \<Rightarrow>
             if is_quote q then
               (let v = takeWhile (\<lambda>c. \<not> is_quote c) rest;
                    after = dropWhile (\<lambda>c. \<not> is_quote c) rest
                in if v \<noteq> [] \<and> after \<noteq> [] then Some v else None)
             else None)
      else None)"

text \<open>\<^verbatim>\<open>re.search\<close>: the match at the leftmost position that has one.\<close>

fun re_search :: "string \<Rightarrow> string option" where
  "re_search [] = None"
| "re_search (c # cs) =
     (case match_here (c # cs) of Some v \<Rightarrow> Some v | None \<Rightarrow> re_search cs)"

definition is_space :: "char \<Rightarrow> bool" where
  "is_space c \<longleftrightarrow>
     c = CHR 0x20 \<or> c = CHR 0x09 \<or> c = CHR 0x0A \<or> c = CHR 0x0B \<or> c = CHR 0x0C \<or>
     c = CHR 0x0D \<or> c = CHR 0x1C \<or> c = CHR 0x1D \<or> c = CHR 0x1E \<or> c = CHR 0x1F"

text \<open>\<^verbatim>\<open>s.split()\<close>: the maximal runs of characters that are not white space.\<close>

fun split_acc :: "string \<Rightarrow> string \<Rightarrow> string list" where
  "split_acc cur [] = (if cur = [] then [] else [rev cur])"
| "split_acc cur (c # cs) =
     (if is_space c
      then (if cur = [] then split_acc [] cs else rev cur # split_acc [] cs)
      else split_acc (c # cur) cs)"

definition py_split :: "string \<Rightarrow> string list" where
  "py_split s = split_acc [] s"

text \<open>
  \<^verbatim>\<open>float(t)\<close> on a token without white space, after the grammar of the language
  reference: an optional sign, then \<^verbatim>\<open>inf\<close>, \<^verbatim>\<open>infinity\<close> or \<^verbatim>\<open>nan\<close> in any case, or
  digits with an optional point and an optional exponent; one underscore may stand
  between two digits.
\<close>

definition digit_val :: "char \<Rightarrow> nat option" where
  "digit_val c =
     (let n = (of_char c :: nat) in if 48 \<le> n \<and> n \<le> 57 then Some (n - 48) else None)"

fun digitpart_rest :: "nat list \<Rightarrow> string \<Rightarrow> nat list \<times> string" where
  "digitpart_rest acc [] = (acc, [])"
| "digitpart_rest acc [c] =
     (case digit_val c of Some d \<Rightarrow> (acc @ [d], []) | None \<Rightarrow> (acc, [c]))"
| "digitpart_rest acc (c # c' # cs) =
     (case digit_val c of
        Some d \<Rightarrow> digitpart_rest (acc @ [d]) (c' # cs)
      | None \<Rightarrow>
          if c = CHR ''_'' then
            (case digit_val c' of
               Some d \<Rightarrow> digitpart_rest (acc @ [d]) cs
             | None \<Rightarrow> (acc, c # c' # cs))
          else (acc, c # c' # cs))"

definition digitpart :: "string \<Rightarrow> nat list \<times> string" where
  "digitpart s =
     (case s of
        [] \<Rightarrow> ([], [])
      | c # cs \<Rightarrow> (case digit_val c of Some d \<Rightarrow> digitpart_rest [d] cs | None \<Rightarrow> ([], s)))"

definition digits_val :: "nat list \<Rightarrow> nat" where
  "digits_val ds = foldl (\<lambda>a d. 10 * a + d) 0 ds"

definition parse_exponent :: "string \<Rightarrow> int option" where
  "parse_exponent s =
     (case s of
        [] \<Rightarrow> Some 0
      | c # cs \<Rightarrow>
          if c = CHR ''e'' \<or> c = CHR ''E'' then
            (let (neg, body) =
                   (case cs of
                      [] \<Rightarrow> (False, [])
                    | d # ds \<Rightarrow>
                        if d = CHR ''-'' then (True, ds)
                        else if d = CHR ''+'' then (False, ds) else (False, cs));
                 (es, rest) = digitpart body
             in if es \<noteq> [] \<and> rest = []
                then Some (if neg then - int (digits_val es) else int (digits_val es))
                else None)
          else None)"

definition parse_number :: "string \<Rightarrow> rat option" where
  "parse_number s =
     (let (ip, r1) = digitpart s;
          (fp, r2) = (case r1 of
                        [] \<Rightarrow> ([], [])
                      | c # cs \<Rightarrow> if c = CHR ''.'' then digitpart cs else ([], r1))
      in if ip = [] \<and> fp = [] then None
         else (case parse_exponent r2 of
                 None \<Rightarrow> None
               | Some e \<Rightarrow>
                   (let m = of_nat (digits_val (ip @ fp)) / 10 ^ length fp
                    in Some (if 0 \<le> e then m * 10 ^ nat e else m / 10 ^ nat (- e)))))"

definition lower_char :: "char \<Rightarrow> char" where
  "lower_char c =
     (let n = (of_char c :: nat) in if 65 \<le> n \<and> n \<le> 90 then char_of (n + 32) else c)"

definition py_float :: "string \<Rightarrow> exn + pynum" where
  "py_float t =
     (let (neg, body) =
            (case t of
               [] \<Rightarrow> (False, [])
             | c # cs \<Rightarrow>
                 if c = CHR ''-'' then (True, cs)
                 else if c = CHR ''+'' then (False, cs) else (False, t));
          low = map lower_char body
      in if low = ''inf'' \<or> low = ''infinity'' then Inr (if neg then NegInf else PosInf)
         else if low = ''nan'' then Inr NaN
         else (case parse_number body of
                 None \<Rightarrow>
                   Inl (ValueError (''could not convert string to float: '' @ [CHR 0x27] @ t @ [CHR 0x27]))
               | Some r \<Rightarrow> Inr (Fin (if neg then - r else r))))"

section \<open>Paths\<close>

text \<open>
  A \<^verbatim>\<open>pathlib\<close> path of the POSIX flavour is the list of its \<^verbatim>\<open>parts\<close>; an absolute
  path has the part \<^verbatim>\<open>/\<close> first. The path \<^verbatim>\<open>Path('.')\<close> has no part.
\<close>

type_synonym path = "string list"

definition is_absolute :: "path \<Rightarrow> bool" where
  "is_absolute p = (case p of [] \<Rightarrow> False | a # _ \<Rightarrow> a = ''/'')"

definition parent :: "path \<Rightarrow> path" where
  "parent p = (if length p = 1 \<and> is_absolute p then p else butlast p)"

definition name :: "path \<Rightarrow> string" where
  "name p = (if length p = (if is_absolute p then 1 else 0) then [] else last p)"

text \<open>\<^verbatim>\<open>s.rfind('.')\<close>, with \<open>None\<close> for Python's -1.\<close>

definition rfind_dot :: "string \<Rightarrow> nat option" where
  "rfind_dot s =
     (if CHR ''.'' \<in> set s
      then Some (length s - 1 - length (takeWhile (\<lambda>c. c \<noteq> CHR ''.'') (rev s)))
      else None)"

definition suffix :: "path \<Rightarrow> string" where
  "suffix p =
     (let n = name p
      in case rfind_dot n of
           None \<Rightarrow> []
         | Some i \<Rightarrow> if 0 < i \<and> i < length n - 1 then drop i n else [])"

definition with_suffix :: "path \<Rightarrow> string \<Rightarrow> exn + path" where
  "with_suffix p sfx =
     (if CHR ''/'' \<in> set sfx \<or> (sfx \<noteq> [] \<and> hd sfx \<noteq> CHR ''.'') \<or> sfx = ''.''
      then Inl (ValueError ''Invalid suffix'')
      else if name p = [] then Inl (ValueError ''path has an empty name'')
      else (let old_suffix = suffix p; n = name p;
                n' = (if old_suffix = [] then n @ sfx
                      else take (length n - length old_suffix) n @ sfx)
            in Inr (butlast p @ [n'])))"

definition relative_to :: "path \<Rightarrow> path \<Rightarrow> exn + path" where
  "relative_to p base =
     (if (if base = [] then is_absolute p else take (length base) p \<noteq> base)
      then Inl (ValueError ''path is not in the subpath of the other path'')
      else Inr (drop (length base) p))"

text \<open>The operator \<^verbatim>\<open>/\<close>: an absolute right operand replaces the left one.\<close>

definition joinpath :: "path \<Rightarrow> path \<Rightarrow> path" where
  "joinpath p q = (if is_absolute q then q else p @ q)"

definition lower :: "string \<Rightarrow> string" where
  "lower s = map lower_char s"

section \<open>The file system and the rendering engine\<close>

text \<open>
  What a path leads to: a regular file, a directory with its entries in the order the
  operating system lists them, or something else (a device, a socket, a FIFO).
\<close>

datatype fsnode = RegFile | Special | Directory "(string \<times> fsnode) list"

text \<open>The pattern \<^verbatim>\<open>*.svg\<close> on a name: the name ends with \<^verbatim>\<open>.svg\<close>.\<close>

definition matches_svg :: "string \<Rightarrow> bool" where
  "matches_svg n \<longleftrightarrow> 4 \<le> length n \<and> drop (length n - 4) n = ''.svg''"

text \<open>
  \<^verbatim>\<open>directory.glob("*.svg")\<close> and \<^verbatim>\<open>directory.rglob("*.svg")\<close>, as paths relative to
  the directory: the entries of any kind whose name matches, in the directory itself,
  and for \<^verbatim>\<open>rglob\<close> in every directory below it. Symbolic links are not modelled.
  \<^verbatim>\<open>pathlib\<close> makes each result by appending the names to the parts of the directory.
\<close>

fun glob_entries :: "(string \<times> fsnode) list \<Rightarrow> path list" where
  "glob_entries [] = []"
| "glob_entries ((n, t) # es) = (if matches_svg n then [[n]] else []) @ glob_entries es"

definition glob_svg :: "fsnode \<Rightarrow> path list" where
  "glob_svg t = (case t of Directory es \<Rightarrow> glob_entries es | _ \<Rightarrow> [])"

fun rglob_svg :: "fsnode \<Rightarrow> path list"
  and rglob_entries :: "(string \<times> fsnode) list \<Rightarrow> path list" where
  "rglob_svg (Directory es) = rglob_entries es"
| "rglob_svg RegFile = []"
| "rglob_svg Special = []"
| "rglob_entries [] = []"
| "rglob_entries ((n, t) # es) =
     (if matches_svg n then [[n]] else []) @ map ((#) n) (rglob_svg t) @ rglob_entries es"

text \<open>
  The page handed to the engine: the host document of \<^verbatim>\<open>convert_file\<close>, reduced to the
  three values interpolated into it.
\<close>

record html_page =
  css_width :: pynum
  css_height :: pynum
  body :: string

text \<open>What the script prints; blank lines and rulers are left out.\<close>

datatype message =
    MsgBanner
  | MsgFileMissing path
  | MsgNotSvg path
  | MsgConverting string
  | MsgSuccess path
  | MsgFailure string
  | MsgDirMissing path
  | MsgNotDir path
  | MsgScanning path
  | MsgNoSvgFound
  | MsgFound nat
  | MsgOutputDir path
  | MsgScale pynum
  | MsgProgress nat nat string
  | MsgSummary nat nat "(string \<times> string) list"
  | MsgPathMissing path
  | MsgElapsed

text \<open>
  The calls a run makes to the outside world, in order. \<open>ConvertFile\<close> marks a call of
  \<^verbatim>\<open>convert_file\<close> with its two arguments; \<open>Screenshot\<close> is the only call that writes
  an output file.
\<close>

datatype event =
    Print message
  | PlaywrightStart
  | BrowserLaunch
  | NewPage
  | PageClose
  | BrowserClose
  | PlaywrightStop
  | ConvertFile path path
  | MkDir path
  | ReadText path
  | SetContent html_page
  | WaitForSelector
  | SetViewportSize int int
  | QuerySelector
  | Screenshot path

text \<open>
  The outside world answers each call: \<open>None\<close> (or \<open>Inr\<close>) when the call returns,
  the exception when it raises. \<open>tree_at\<close> is what a path leads to, \<open>None\<close> when it
  does not exist. The engine's answers depend on the page that was loaded.
\<close>

record env =
  tree_at :: "path \<Rightarrow> fsnode option"
  read_text :: "path \<Rightarrow> exn + string"
  mkdir :: "path \<Rightarrow> exn option"
  start_playwright :: "exn option"
  launch_browser :: "exn option"
  new_page :: "exn option"
  close_page :: "exn option"
  close_browser :: "exn option"
  stop_playwright :: "exn option"
  set_content :: "html_page \<Rightarrow> exn option"
  wait_for_selector :: "html_page \<Rightarrow> exn option"
  set_viewport_size :: "int \<Rightarrow> int \<Rightarrow> exn option"
  query_selector :: "html_page \<Rightarrow> exn + bool"
  screenshot :: "html_page \<Rightarrow> path \<Rightarrow> exn option"

definition exists :: "env \<Rightarrow> path \<Rightarrow> bool" where
  "exists E p \<longleftrightarrow> tree_at E p \<noteq> None"

definition is_file :: "env \<Rightarrow> path \<Rightarrow> bool" where
  "is_file E p \<longleftrightarrow> tree_at E p = Some RegFile"

definition is_dir :: "env \<Rightarrow> path \<Rightarrow> bool" where
  "is_dir E p \<longleftrightarrow> (case tree_at E p of Some (Directory es) \<Rightarrow> True | _ \<Rightarrow> False)"

section \<open>The converter\<close>

text \<open>
  The fields of \<^verbatim>\<open>SvgToPngConverter\<close>; the three handles are \<open>True\<close> when they are not
  \<^verbatim>\<open>None\<close>. \<open>trace\<close> is not a field of the class: it records the calls made so far.
\<close>

record converter =
  scale :: pynum
  recursive :: bool
  success_count :: nat
  fail_count :: nat
  failed_files :: "(string \<times> string) list"
  playwright :: bool
  browser :: bool
  page :: bool
  trace :: "event list"

definition init :: "pynum \<Rightarrow> bool \<Rightarrow> converter" where
  "init s r =
     \<lparr>scale = s, recursive = r, success_count = 0, fail_count = 0, failed_files = [],
      playwright = False, browser = False, page = False, trace = []\<rparr>"

definition emit :: "event \<Rightarrow> converter \<Rightarrow> converter" where
  "emit e c = c\<lparr>trace := trace c @ [e]\<rparr>"

text \<open>
  \<^verbatim>\<open>__enter__\<close> and \<^verbatim>\<open>__exit__\<close>, lines 74 to 88. A handle is set only when its call
  has returned; \<^verbatim>\<open>__exit__\<close> closes what is set, and stops at the first call that raises.
\<close>

definition conv_enter :: "env \<Rightarrow> converter \<Rightarrow> exn option \<times> converter" where
  "conv_enter E c =
     (let c1 = emit PlaywrightStart c
      in case start_playwright E of
           Some e \<Rightarrow> (Some e, c1)
         | None \<Rightarrow>
             (let c2 = emit BrowserLaunch (c1\<lparr>playwright := True\<rparr>)
              in case launch_browser E of
                   Some e \<Rightarrow> (Some e, c2)
                 | None \<Rightarrow>
                     (let c3 = emit NewPage (c2\<lparr>browser := True\<rparr>)
                      in case new_page E of
                           Some e \<Rightarrow> (Some e, c3)
                         | None \<Rightarrow> (None, c3\<lparr>page := True\<rparr>))))"

definition conv_exit :: "env \<Rightarrow> converter \<Rightarrow> exn option \<times> converter" where
  "conv_exit E c =
     (let (r1, c1) = (if page c then (close_page E, emit PageClose c) else (None, c))
      in case r1 of
           Some e \<Rightarrow> (Some e, c1)
         | None \<Rightarrow>
             (let (r2, c2) = (if browser c1 then (close_browser E, emit BrowserClose c1)
                              else (None, c1))
              in case r2 of
                   Some e \<Rightarrow> (Some e, c2)
                 | None \<Rightarrow>
                     (if playwright c2 then (stop_playwright E, emit PlaywrightStop c2)
                      else (None, c2))))"

text \<open>Lines 90 to 109: the matching paths under the directory, sorted.\<close>

definition get_svg_files :: "env \<Rightarrow> converter \<Rightarrow> path \<Rightarrow> path list" where
  "get_svg_files E c directory =
     (let svg_files =
            (case tree_at E directory of
               None \<Rightarrow> []
             | Some t \<Rightarrow>
                 if recursive c then map ((@) directory) (rglob_svg t)
                 else map ((@) directory) (glob_svg t))
      in sort svg_files)"

text \<open>The message of the \<^verbatim>\<open>AttributeError\<close> for an attribute of \<^verbatim>\<open>None\<close>.\<close>

definition none_has_no :: "string \<Rightarrow> string" where
  "none_has_no attr =
     [CHR 0x27] @ ''NoneType'' @ [CHR 0x27] @ '' object has no attribute '' @
     [CHR 0x27] @ attr @ [CHR 0x27]"

text \<open>Lines 130 to 145 of \<^verbatim>\<open>convert_file\<close>: the size read from the viewBox.\<close>

definition viewbox_size :: "string \<Rightarrow> exn + pynum \<times> pynum" where
  "viewbox_size svg_content =
     (case re_search svg_content of
        Some g \<Rightarrow>
          (let viewbox_values = py_split g
           in if length viewbox_values = 4 then
                (case py_float (viewbox_values ! 2) of
                   Inl e \<Rightarrow> Inl e
                 | Inr svg_width \<Rightarrow>
                     (case py_float (viewbox_values ! 3) of
                        Inl e \<Rightarrow> Inl e
                      | Inr svg_height \<Rightarrow> Inr (svg_width, svg_height)))
              else Inr (Fin 750, Fin 1000))
      | None \<Rightarrow> Inr (Fin 750, Fin 1000))"

text \<open>Lines 185 and 186: the viewport, the scaled size converted with \<^verbatim>\<open>int\<close>.\<close>

definition viewport :: "pynum \<Rightarrow> pynum \<Rightarrow> pynum \<Rightarrow> exn + int \<times> int" where
  "viewport width height s =
     (case py_int (py_mul width s) of
        Inl e \<Rightarrow> Inl e
      | Inr viewport_width \<Rightarrow>
          (case py_int (py_mul height s) of
             Inl e \<Rightarrow> Inl e
           | Inr viewport_height \<Rightarrow> Inr (viewport_width, viewport_height)))"

text \<open>
  The engine calls of lines 175 to 201, on a page that is not \<^verbatim>\<open>None\<close>. The result is
  the exception that ended the sequence, if any, and the converter with the calls made.
\<close>

definition render :: "env \<Rightarrow> html_page \<Rightarrow> path \<Rightarrow> converter \<Rightarrow> exn option \<times> converter" where
  "render E html_content png_path c =
     (let c1 = emit (SetContent html_content) c
      in case set_content E html_content of
           Some e \<Rightarrow> (Some e, c1)
         | None \<Rightarrow>
     (let c2 = emit WaitForSelector c1
      in case wait_for_selector E html_content of
           Some e \<Rightarrow> (Some e, c2)
         | None \<Rightarrow>
     (case viewport (css_width html_content) (css_height html_content) (scale c) of
        Inl e \<Rightarrow> (Some e, c2)
      | Inr (viewport_width, viewport_height) \<Rightarrow>
     (let c3 = emit (SetViewportSize viewport_width viewport_height) c2
      in case set_viewport_size E viewport_width viewport_height of
           Some e \<Rightarrow> (Some e, c3)
         | None \<Rightarrow>
     (let c4 = emit QuerySelector c3
      in case query_selector E html_content of
           Inl e \<Rightarrow> (Some e, c4)
         | Inr found \<Rightarrow>
             if \<not> found
             then (Some (AttributeError (none_has_no ''screenshot'')), c4)
             else (let c5 = emit (Screenshot png_path) c4
                   in (screenshot E html_content png_path, c5)))))))"

text \<open>The body of the \<^verbatim>\<open>try\<close> of \<^verbatim>\<open>convert_file\<close>, lines 123 to 201.\<close>

definition convert_try :: "env \<Rightarrow> path \<Rightarrow> path \<Rightarrow> converter \<Rightarrow> exn option \<times> converter" where
  "convert_try E svg_path png_path c =
     (let c1 = emit (MkDir (parent png_path)) c
      in case mkdir E (parent png_path) of
           Some e \<Rightarrow> (Some e, c1)
         | None \<Rightarrow>
     (let c2 = emit (ReadText svg_path) c1
      in case read_text E svg_path of
           Inl e \<Rightarrow> (Some e, c2)
         | Inr svg_content \<Rightarrow>
     (case viewbox_size svg_content of
        Inl e \<Rightarrow> (Some e, c2)
      | Inr (svg_width, svg_height) \<Rightarrow>
          if \<not> page c2
          then (Some (AttributeError (none_has_no ''set_content'')), c2)
          else render E \<lparr>css_width = svg_width, css_height = svg_height, body = svg_content\<rparr>
                 png_path c2)))"

text \<open>
  \<^verbatim>\<open>convert_file\<close>, lines 111 to 210: the \<^verbatim>\<open>try\<close> and the handler of
  \<^verbatim>\<open>except Exception\<close>. The result is the returned pair and the converter.
\<close>

definition convert_file ::
  "env \<Rightarrow> path \<Rightarrow> path \<Rightarrow> converter \<Rightarrow> (bool \<times> string) \<times> converter" where
  "convert_file E svg_path png_path c =
     (case convert_try E svg_path png_path (emit (ConvertFile svg_path png_path) c) of
        (None, c') \<Rightarrow> ((True, []), c'\<lparr>success_count := success_count c' + 1\<rparr>)
      | (Some e, c') \<Rightarrow>
          (let error_msg = str_exn e
           in ((False, error_msg),
               c'\<lparr>fail_count := fail_count c' + 1,
                  failed_files := failed_files c' @ [(name svg_path, error_msg)]\<rparr>)))"

text \<open>
  \<^verbatim>\<open>convert_single\<close>, lines 212 to 243. \<^verbatim>\<open>with_suffix\<close> stands outside any \<^verbatim>\<open>try\<close>,
  so its exception would leave the call.
\<close>

definition convert_single ::
  "env \<Rightarrow> path \<Rightarrow> path option \<Rightarrow> converter \<Rightarrow> (exn + bool) \<times> converter" where
  "convert_single E svg_path png_path c =
     (if \<not> exists E svg_path then (Inr False, emit (Print (MsgFileMissing svg_path)) c)
      else if \<not> lower (suffix svg_path) = ''.svg''
      then (Inr False, emit (Print (MsgNotSvg svg_path)) c)
      else (case (case png_path of
                    None \<Rightarrow> with_suffix svg_path ''.png''
                  | Some p \<Rightarrow> Inr p) of
              Inl e \<Rightarrow> (Inl e, c)
            | Inr png \<Rightarrow>
                (case convert_file E svg_path png (emit (Print (MsgConverting (name svg_path))) c) of
                   ((success, error), c') \<Rightarrow>
                     if success then (Inr True, emit (Print (MsgSuccess png)) c')
                     else (Inr False, emit (Print (MsgFailure error)) c'))))"

text \<open>
  Lines 283 and 284 of \<^verbatim>\<open>convert_batch\<close>: the destination of one source file. Both
  \<^verbatim>\<open>relative_to\<close> and \<^verbatim>\<open>with_suffix\<close> can raise, and stand outside the \<^verbatim>\<open>try\<close> of
  \<^verbatim>\<open>convert_file\<close>.
\<close>

definition batch_png_path :: "path \<Rightarrow> path \<Rightarrow> path \<Rightarrow> exn + path" where
  "batch_png_path input_dir output_dir svg_path =
     (case relative_to svg_path input_dir of
        Inl e \<Rightarrow> Inl e
      | Inr rel_path \<Rightarrow>
          (case with_suffix rel_path ''.png'' of
             Inl e \<Rightarrow> Inl e
           | Inr rel_png \<Rightarrow> Inr (joinpath output_dir rel_png)))"

text \<open>
  The loop of \<^verbatim>\<open>convert_batch\<close>, lines 281 to 287; \<open>i\<close> is the index that
  \<^verbatim>\<open>enumerate\<close> counts from 1. The result of \<^verbatim>\<open>convert_file\<close> is dropped.
\<close>

fun convert_loop ::
  "env \<Rightarrow> path \<Rightarrow> path \<Rightarrow> nat \<Rightarrow> nat \<Rightarrow> path list \<Rightarrow> converter \<Rightarrow> exn option \<times> converter" where
  "convert_loop E input_dir output_dir n_total i [] c = (None, c)"
| "convert_loop E input_dir output_dir n_total i (svg_path # rest) c =
     (case batch_png_path input_dir output_dir svg_path of
        Inl e \<Rightarrow> (Some e, c)
      | Inr png_path \<Rightarrow>
          (let c1 = emit (Print (MsgProgress i n_total (name svg_path))) c
           in convert_loop E input_dir output_dir n_total (i + 1) rest
                (snd (convert_file E svg_path png_path c1))))"

text \<open>
  \<^verbatim>\<open>convert_batch\<close>, lines 245 to 287. The \<^verbatim>\<open>mkdir\<close> of the output root at line 266
  stands outside any \<^verbatim>\<open>try\<close>: its exception leaves the call.
\<close>

definition convert_batch ::
  "env \<Rightarrow> path \<Rightarrow> path option \<Rightarrow> converter \<Rightarrow> exn option \<times> converter" where
  "convert_batch E input_dir output_dir_arg c =
     (if \<not> exists E input_dir then (None, emit (Print (MsgDirMissing input_dir)) c)
      else if \<not> is_dir E input_dir then (None, emit (Print (MsgNotDir input_dir)) c)
      else
        (let output_dir = (case output_dir_arg of
                             None \<Rightarrow> joinpath (parent input_dir) [''png_output'']
                           | Some d \<Rightarrow> d);
             c1 = emit (MkDir output_dir) c
         in case mkdir E output_dir of
              Some e \<Rightarrow> (Some e, c1)
            | None \<Rightarrow>
                (let c2 = emit (Print (MsgScanning input_dir)) c1;
                     svg_files = get_svg_files E c2 input_dir
                 in if svg_files = [] then (None, emit (Print MsgNoSvgFound) c2)
                    else
                      (let c3 = emit (Print (MsgScale (scale c2)))
                                  (emit (Print (MsgOutputDir output_dir))
                                     (emit (Print (MsgFound (length svg_files))) c2))
                       in convert_loop E input_dir output_dir (length svg_files) 1
                            svg_files c3))))"

definition print_summary :: "converter \<Rightarrow> converter" where
  "print_summary c =
     emit (Print (MsgSummary (success_count c) (fail_count c) (failed_files c))) c"

section \<open>The command line\<close>

text \<open>
  The parsed arguments: \<open>input_path\<close> and \<open>output_path\<close> are the two positionals after
  \<^verbatim>\<open>Path(...)\<close>, \<open>None\<close> for an output path that is absent or empty.
\<close>

record args =
  input_path :: path
  output_path :: "path option"
  scale_arg :: pynum
  no_recursive :: bool

text \<open>
  How a block ends: it returns, an exception leaves it, or \<^verbatim>\<open>sys.exit(n)\<close> does. The
  interpreter exits with 0 in the first case, with 1 after an exception nobody caught.
\<close>

datatype outcome = Returned | Raised exn | SysExit int

fun exit_code :: "outcome \<Rightarrow> int" where
  "exit_code Returned = 0"
| "exit_code (Raised e) = 1"
| "exit_code (SysExit n) = n"

text \<open>The body of the \<^verbatim>\<open>with\<close> statement of \<^verbatim>\<open>main\<close>, lines 363 to 376.\<close>

definition summary_if_any :: "converter \<Rightarrow> converter" where
  "summary_if_any c = (if 0 < success_count c \<or> 0 < fail_count c then print_summary c else c)"

definition main_body :: "env \<Rightarrow> args \<Rightarrow> converter \<Rightarrow> outcome \<times> converter" where
  "main_body E a c =
     (if is_file E (input_path a) then
        (case convert_single E (input_path a) (output_path a) c of
           (Inl e, c') \<Rightarrow> (Raised e, c')
         | (Inr ok, c') \<Rightarrow> (Returned, summary_if_any c'))
      else if is_dir E (input_path a) then
        (case convert_batch E (input_path a) (output_path a) c of
           (Some e, c') \<Rightarrow> (Raised e, c')
         | (None, c') \<Rightarrow> (Returned, summary_if_any c'))
      else (SysExit 1, emit (Print (MsgPathMissing (input_path a))) c))"

text \<open>
  \<^verbatim>\<open>main\<close>: \<^verbatim>\<open>__enter__\<close>, the body, then \<^verbatim>\<open>__exit__\<close> however the body ended.
  \<^verbatim>\<open>__exit__\<close> returns \<^verbatim>\<open>None\<close>, so what left the body goes on; an exception of
  \<^verbatim>\<open>__exit__\<close> itself replaces it. An exception of \<^verbatim>\<open>__enter__\<close> skips \<^verbatim>\<open>__exit__\<close>.
\<close>

definition main :: "env \<Rightarrow> args \<Rightarrow> outcome \<times> converter" where
  "main E a =
     (let c0 = emit (Print MsgBanner) (init (scale_arg a) (\<not> no_recursive a))
      in case conv_enter E c0 of
           (Some e, c1) \<Rightarrow> (Raised e, c1)
         | (None, c1) \<Rightarrow>
             (case main_body E a c1 of
                (out, c2) \<Rightarrow>
                  (case conv_exit E c2 of
                     (Some e, c3) \<Rightarrow> (Raised e, c3)
                   | (None, c3) \<Rightarrow>
                       (case out of
                          Returned \<Rightarrow> (Returned, emit (Print MsgElapsed) c3)
                        | Raised e \<Rightarrow> (out, c3)
                        | SysExit n \<Rightarrow> (out, c3)))))"

section \<open>Observations on a run\<close>

text \<open>
  The calls of a trace fall into five kinds: printing, starting the engine, stopping it,
  a call of \<^verbatim>\<open>convert_file\<close>, and a call to the file system or the page.
\<close>

datatype kind = KPrint | KStart | KStop | KCall | KStep

fun kind_of :: "event \<Rightarrow> kind" where
  "kind_of (Print m) = KPrint"
| "kind_of PlaywrightStart = KStart"
| "kind_of BrowserLaunch = KStart"
| "kind_of NewPage = KStart"
| "kind_of PageClose = KStop"
| "kind_of BrowserClose = KStop"
| "kind_of PlaywrightStop = KStop"
| "kind_of (ConvertFile s p) = KCall"
| "kind_of (MkDir p) = KStep"
| "kind_of (ReadText p) = KStep"
| "kind_of (SetContent h) = KStep"
| "kind_of WaitForSelector = KStep"
| "kind_of (SetViewportSize w h) = KStep"
| "kind_of QuerySelector = KStep"
| "kind_of (Screenshot p) = KStep"

definition processed :: "converter \<Rightarrow> nat" where
  "processed c = success_count c + fail_count c"

definition convert_calls :: "converter \<Rightarrow> nat" where
  "convert_calls c = length (filter (\<lambda>e. kind_of e = KCall) (trace c))"

text \<open>Between two states the counters grew by the number of calls of \<^verbatim>\<open>convert_file\<close>.\<close>

definition balanced :: "converter \<Rightarrow> converter \<Rightarrow> bool" where
  "balanced c c' \<longleftrightarrow> processed c' + convert_calls c = processed c + convert_calls c'"

text \<open>
  What a file system guarantees of the names in a directory: none is empty, none
  contains a slash.
\<close>

fun valid_node :: "fsnode \<Rightarrow> bool"
  and valid_entries :: "(string \<times> fsnode) list \<Rightarrow> bool" where
  "valid_node (Directory es) = valid_entries es"
| "valid_node RegFile = True"
| "valid_node Special = True"
| "valid_entries [] = True"
| "valid_entries ((n, t) # es) =
     (n \<noteq> [] \<and> CHR ''/'' \<notin> set n \<and> valid_node t \<and> valid_entries es)"

definition valid_env :: "env \<Rightarrow> bool" where
  "valid_env E \<longleftrightarrow> (\<forall>p t. tree_at E p = Some t \<longrightarrow> valid_node t)"

text \<open>A relative path to an entry whose name ends with \<^verbatim>\<open>.svg\<close>.\<close>

definition good_rel :: "path \<Rightarrow> bool" where
  "good_rel rel \<longleftrightarrow> rel \<noteq> [] \<and> hd rel \<noteq> ''/'' \<and> matches_svg (last rel)"

text \<open>The calls of \<^verbatim>\<open>convert_file\<close> in a list of events, with their arguments.\<close>

fun calls_of :: "event list \<Rightarrow> (path \<times> path) list" where
  "calls_of [] = []"
| "calls_of (ConvertFile s p # evs) = (s, p) # calls_of evs"
| "calls_of (e # evs) = calls_of evs"

text \<open>The output files a list of events writes.\<close>

fun written :: "event list \<Rightarrow> path list" where
  "written [] = []"
| "written (Screenshot p # evs) = p # written evs"
| "written (e # evs) = written evs"

text \<open>Lines 262 and 263: the output root of a batch.\<close>

definition default_output :: "path \<Rightarrow> path option \<Rightarrow> path" where
  "default_output input_dir output_dir_arg =
     (case output_dir_arg of
        None \<Rightarrow> joinpath (parent input_dir) [''png_output'']
      | Some d \<Rightarrow> d)"

text \<open>
  A step from \<open>c\<close> to \<open>c'\<close> that leaves the engine alone: the handles and the options
  are the same, the counters grew with the calls, nothing started or stopped the engine.
\<close>

definition quiet :: "converter \<Rightarrow> converter \<Rightarrow> bool" where
  "quiet c c' \<longleftrightarrow>
     page c' = page c \<and> browser c' = browser c \<and> playwright c' = playwright c \<and>
     scale c' = scale c \<and> recursive c' = recursive c \<and> balanced c c' \<and>
     (\<exists>evs. trace c' = trace c @ evs \<and>
            (\<forall>e\<in>set evs. kind_of e \<noteq> KStart \<and> kind_of e \<noteq> KStop))"

text \<open>The calls that start the engine and the first two that stop it return.\<close>

definition engine_ok :: "env \<Rightarrow> bool" where
  "engine_ok E \<longleftrightarrow>
     start_playwright E = None \<and> launch_browser E = None \<and> new_page E = None \<and>
     close_page E = None \<and> close_browser E = None"

section \<open>A sample run\<close>

text \<open>
  A directory \<^verbatim>\<open>in\<close> with two vector files, a text file and a sub-directory with a
  third vector file, listed out of order; \<^verbatim>\<open>b.svg\<close> cannot be read, \<^verbatim>\<open>c.svg\<close> has no
  viewBox. Beside it lie a text file, a device and \<^verbatim>\<open>bad.svg\<close>, whose viewBox has four
  tokens, two of them no numbers. The engine answers every call.
\<close>

definition sample_tree :: fsnode where
  "sample_tree =
     Directory [(''b.svg'', RegFile), (''a.svg'', RegFile), (''notes.txt'', RegFile),
                (''sub'', Directory [(''c.svg'', RegFile)])]"

definition sample_env :: env where
  "sample_env =
     \<lparr>tree_at = (\<lambda>p. if p = [''in''] then Some sample_tree
                     else if p = [''notes.txt''] then Some RegFile
                     else if p = [''bad.svg''] then Some RegFile
                     else if p = [''/'', ''dev'', ''null''] then Some Special
                     else None),
      read_text = (\<lambda>p. if p = [''in'', ''a.svg'']
                         then Inr ''<svg viewBox=\"0 0 200 300\"></svg>''
                       else if p = [''in'', ''sub'', ''c.svg''] then Inr ''<svg></svg>''
                       else if p = [''bad.svg'']
                         then Inr ''<svg viewBox=\"0 0 abc def\"></svg>''
                       else Inl (OSError ''Permission denied'')),
      mkdir = (\<lambda>p. None),
      start_playwright = None, launch_browser = None, new_page = None,
      close_page = None, close_browser = None, stop_playwright = None,
      set_content = (\<lambda>h. None), wait_for_selector = (\<lambda>h. None),
      set_viewport_size = (\<lambda>w h. None), query_selector = (\<lambda>h. Inr True),
      screenshot = (\<lambda>h p. None)\<rparr>"

text \<open>The same, where no directory can be created.\<close>

definition readonly_env :: env where
  "readonly_env = sample_env\<lparr>mkdir := (\<lambda>p. Some (OSError ''Permission denied''))\<rparr>"


section \<open>The pattern as the specification words it\<close>




section \<open>Enumeration and destinations as the specification words them\<close>



text \<open>
  The mirrored destination: the output root, the directories of the source below the
  input directory, and the name of the source with \<^verbatim>\<open>.png\<close> in place of its last four
  characters \<^verbatim>\<open>.svg\<close>.
\<close>

definition png_name :: "string \<Rightarrow> string" where
  "png_name n = take (length n - 4) n @ ''.png''"

definition mirrored :: "path \<Rightarrow> path \<Rightarrow> path \<Rightarrow> path" where
  "mirrored input_dir output_root svg_path =
     (let rel = drop (length input_dir) svg_path
      in output_root @ butlast rel @ [png_name (last rel)])"

text \<open>
  \<open>x\<close> is \<open>d\<close> or lies below it; \<open>x\<close> is a sibling of \<open>d\<close> when both have the same
  parent and \<open>x\<close> is not inside \<open>d\<close>.
\<close>

definition inside :: "path \<Rightarrow> path \<Rightarrow> bool" where
  "inside x d \<longleftrightarrow> take (length d) x = d"

definition sibling :: "path \<Rightarrow> path \<Rightarrow> bool" where
  "sibling x d \<longleftrightarrow> parent x = parent d \<and> \<not> inside x d"

text \<open>
  The mirrored destination, but for a source whose whole name is \<^verbatim>\<open>.svg\<close>: to that name
  \<^verbatim>\<open>.png\<close> is appended.
\<close>

definition destination :: "path \<Rightarrow> path \<Rightarrow> path \<Rightarrow> path" where
  "destination d out f =
     (if name f = ''.svg'' then out @ butlast (drop (length d) f) @ [''.svg.png'']
      else mirrored d out f)"

section \<open>Facts about the embedding\<close>

lemma render_rest: "snd (render E h p c)\<lparr>trace := t\<rparr> = c\<lparr>trace := t\<rparr>"
  by (simp add: render_def emit_def Let_def split: option.splits sum.splits prod.splits)

lemma render_trace:
  "\<exists>evs. trace (snd (render E h p c)) = trace c @ evs \<and> (\<forall>e\<in>set evs. kind_of e = KStep)"
  by (simp add: render_def emit_def Let_def split: option.splits sum.splits prod.splits)

lemma try_rest: "snd (convert_try E s p c)\<lparr>trace := t\<rparr> = c\<lparr>trace := t\<rparr>"
  by (simp add: convert_try_def emit_def Let_def render_rest split: option.splits sum.splits prod.splits)

lemma try_trace:
  "\<exists>evs. trace (snd (convert_try E s p c)) = trace c @ evs \<and> (\<forall>e\<in>set evs. kind_of e = KStep)"
proof -
  have r: "\<exists>evs. trace (snd (render E h p (c\<lparr>trace := trace c @ [MkDir (parent p), ReadText s]\<rparr>)))
      = trace c @ evs \<and> (\<forall>e\<in>set evs. kind_of e = KStep)" for h
    using render_trace [of E h p "c\<lparr>trace := trace c @ [MkDir (parent p), ReadText s]\<rparr>"]
    by auto
  show ?thesis
    using r
    by (simp add: convert_try_def emit_def Let_def split: option.splits sum.splits prod.splits)
qed


lemma try_field:
  "success_count (snd (convert_try E s p c)) = success_count c"
  "fail_count (snd (convert_try E s p c)) = fail_count c"
  "failed_files (snd (convert_try E s p c)) = failed_files c"
  "scale (snd (convert_try E s p c)) = scale c"
  "recursive (snd (convert_try E s p c)) = recursive c"
  "page (snd (convert_try E s p c)) = page c"
  "browser (snd (convert_try E s p c)) = browser c"
  "playwright (snd (convert_try E s p c)) = playwright c"
proof -
  note r = try_rest [where E = E and s = s and p = p and c = c and t = "[]"]
  show "success_count (snd (convert_try E s p c)) = success_count c"
    using arg_cong [OF r, of success_count] by simp
  show "fail_count (snd (convert_try E s p c)) = fail_count c"
    using arg_cong [OF r, of fail_count] by simp
  show "failed_files (snd (convert_try E s p c)) = failed_files c"
    using arg_cong [OF r, of failed_files] by simp
  show "scale (snd (convert_try E s p c)) = scale c"
    using arg_cong [OF r, of scale] by simp
  show "recursive (snd (convert_try E s p c)) = recursive c"
    using arg_cong [OF r, of recursive] by simp
  show "page (snd (convert_try E s p c)) = page c"
    using arg_cong [OF r, of page] by simp
  show "browser (snd (convert_try E s p c)) = browser c"
    using arg_cong [OF r, of browser] by simp
  show "playwright (snd (convert_try E s p c)) = playwright c"
    using arg_cong [OF r, of playwright] by simp
qed


lemma file_cases:
  obtains (ok) c' where "convert_try E s p (emit (ConvertFile s p) c) = (None, c')"
      and "convert_file E s p c = ((True, []), c'\<lparr>success_count := success_count c' + 1\<rparr>)"
    | (fail) e c' where "convert_try E s p (emit (ConvertFile s p) c) = (Some e, c')"
      and "convert_file E s p c =
             ((False, str_exn e),
              c'\<lparr>fail_count := fail_count c' + 1,
                 failed_files := failed_files c' @ [(name s, str_exn e)]\<rparr>)"
proof (cases "convert_try E s p (emit (ConvertFile s p) c)")
  case (Pair r c')
  then show ?thesis
    by (cases r) (auto simp: convert_file_def Let_def intro: ok fail)
qed

lemma file_field:
  "scale (snd (convert_file E s p c)) = scale c"
  "recursive (snd (convert_file E s p c)) = recursive c"
  "page (snd (convert_file E s p c)) = page c"
  "browser (snd (convert_file E s p c)) = browser c"
  "playwright (snd (convert_file E s p c)) = playwright c"
proof -
  let ?c0 = "emit (ConvertFile s p) c"
  note f = try_field [of E s p ?c0]
  show "scale (snd (convert_file E s p c)) = scale c"
    by (cases rule: file_cases [of E s p c]) (use f in \<open>simp_all add: emit_def\<close>)
  show "recursive (snd (convert_file E s p c)) = recursive c"
    by (cases rule: file_cases [of E s p c]) (use f in \<open>simp_all add: emit_def\<close>)
  show "page (snd (convert_file E s p c)) = page c"
    by (cases rule: file_cases [of E s p c]) (use f in \<open>simp_all add: emit_def\<close>)
  show "browser (snd (convert_file E s p c)) = browser c"
    by (cases rule: file_cases [of E s p c]) (use f in \<open>simp_all add: emit_def\<close>)
  show "playwright (snd (convert_file E s p c)) = playwright c"
    by (cases rule: file_cases [of E s p c]) (use f in \<open>simp_all add: emit_def\<close>)
qed

lemma file_counts:
  "success_count (snd (convert_file E s p c)) + fail_count (snd (convert_file E s p c))
     = success_count c + fail_count c + 1"
  by (cases rule: file_cases [of E s p c])
     (use try_field [of E s p "emit (ConvertFile s p) c"] in \<open>simp_all add: emit_def\<close>)

lemma file_trace:
  "\<exists>evs. trace (snd (convert_file E s p c)) = trace c @ ConvertFile s p # evs \<and>
         (\<forall>e\<in>set evs. kind_of e = KStep)"
  by (cases rule: file_cases [of E s p c])
     (use try_trace [of E s p "emit (ConvertFile s p) c"] in \<open>simp_all add: emit_def\<close>)

lemma balanced_refl: "balanced c c"
  by (simp add: balanced_def)

lemma balanced_trans: "balanced a b \<Longrightarrow> balanced b c \<Longrightarrow> balanced a c"
  by (simp add: balanced_def)

lemma balanced_emit: "kind_of e \<noteq> KCall \<Longrightarrow> balanced c (emit e c)"
  by (simp add: balanced_def processed_def convert_calls_def emit_def)

lemma file_calls: "convert_calls (snd (convert_file E s p c)) = convert_calls c + 1"
proof -
  obtain evs where "trace (snd (convert_file E s p c)) = trace c @ ConvertFile s p # evs"
    and "\<forall>e\<in>set evs. kind_of e = KStep"
    using file_trace by blast
  then show ?thesis
    by (simp add: convert_calls_def)
qed

lemma balanced_file: "balanced c (snd (convert_file E s p c))"
  using file_counts [of E s p c] file_calls [of E s p c]
  by (simp add: balanced_def processed_def)

lemma balanced_loop: "balanced c (snd (convert_loop E d out n i fs c))"
proof (induction fs arbitrary: c i)
  case Nil
  show ?case by (simp add: balanced_refl)
next
  case (Cons f fs)
  show ?case
  proof (cases "batch_png_path d out f")
    case (Inl e)
    then show ?thesis by (simp add: balanced_refl)
  next
    case (Inr png)
    let ?c1 = "emit (Print (MsgProgress i n (name f))) c"
    let ?c2 = "snd (convert_file E f png ?c1)"
    have "balanced c ?c1" by (simp add: balanced_emit)
    moreover have "balanced ?c1 ?c2" by (rule balanced_file)
    moreover have "balanced ?c2 (snd (convert_loop E d out n (i + 1) fs ?c2))"
      by (rule Cons.IH)
    ultimately show ?thesis
      using Inr by (auto simp: Let_def intro: balanced_trans)
  qed
qed

lemma matches_svg_stem: "matches_svg n \<longleftrightarrow> (\<exists>stem. n = stem @ ''.svg'')"
proof
  assume m: "matches_svg n"
  then have "n = take (length n - 4) n @ ''.svg''"
    unfolding matches_svg_def by (metis append_take_drop_id)
  then show "\<exists>stem. n = stem @ ''.svg''" ..
next
  assume "\<exists>stem. n = stem @ ''.svg''"
  then show "matches_svg n" by (auto simp: matches_svg_def)
qed

lemma rfind_dot_svg: "rfind_dot (stem @ ''.svg'') = Some (length stem)"
  by (simp add: rfind_dot_def)

lemma name_good: "good_rel rel \<Longrightarrow> name rel = last rel"
  by (cases rel) (auto simp: good_rel_def name_def is_absolute_def)

lemma suffix_svg:
  assumes "rel \<noteq> []" "hd rel \<noteq> ''/''" "last rel = stem @ ''.svg''"
  shows "suffix rel = (if stem = [] then [] else ''.svg'')"
proof -
  have "name rel = stem @ ''.svg''"
    using assms by (cases rel) (auto simp: name_def is_absolute_def)
  then show ?thesis
    by (simp add: suffix_def rfind_dot_svg)
qed

lemma with_suffix_svg:
  assumes "rel \<noteq> []" "hd rel \<noteq> ''/''" "last rel = stem @ ''.svg''"
  shows "with_suffix rel ''.png'' =
           Inr (butlast rel @ [if stem = [] then ''.svg.png'' else stem @ ''.png''])"
proof -
  have n: "name rel = stem @ ''.svg''"
    using assms by (cases rel) (auto simp: name_def is_absolute_def)
  show ?thesis
    using suffix_svg [OF assms] n by (simp add: with_suffix_def)
qed

lemma relative_to_append:
  assumes "rel \<noteq> []" "hd rel \<noteq> ''/''"
  shows "relative_to (d @ rel) d = Inr rel"
  using assms by (cases rel) (auto simp: relative_to_def is_absolute_def)

lemma glob_entries_good: "rel \<in> set (glob_entries es) \<Longrightarrow> good_rel rel"
  by (induction es rule: glob_entries.induct)
     (auto simp: good_rel_def matches_svg_def split: if_splits)

lemma rglob_good:
  "valid_node t \<Longrightarrow> rel \<in> set (rglob_svg t) \<Longrightarrow> good_rel rel"
  "valid_entries es \<Longrightarrow> rel \<in> set (rglob_entries es) \<Longrightarrow> good_rel rel"
proof (induction t and es arbitrary: rel and rel rule: rglob_svg_rglob_entries.induct)
  case (5 n t es)
  from "5.prems" have v: "n \<noteq> []" "CHR ''/'' \<notin> set n" "valid_node t" "valid_entries es"
    by simp_all
  from v(2) have nslash: "n \<noteq> ''/''" by auto
  from "5.prems"(2) consider "matches_svg n" "rel = [n]"
    | r where "r \<in> set (rglob_svg t)" "rel = n # r"
    | "rel \<in> set (rglob_entries es)"
    by (auto split: if_splits)
  then show ?case
  proof cases
    case 1
    then show ?thesis using nslash by (simp add: good_rel_def)
  next
    case 2
    with "5.IH"(1) [OF v(3)] have "good_rel r" by simp
    then show ?thesis using 2 nslash by (simp add: good_rel_def)
  next
    case 3
    with "5.IH"(2) [OF v(4)] show ?thesis by simp
  qed
qed simp_all

lemma calls_of_append: "calls_of (xs @ ys) = calls_of xs @ calls_of ys"
  by (induction xs rule: calls_of.induct) simp_all

lemma calls_of_steps: "\<forall>e\<in>set evs. kind_of e = KStep \<Longrightarrow> calls_of evs = []"
  by (induction evs rule: calls_of.induct) simp_all

lemma written_append: "written (xs @ ys) = written xs @ written ys"
  by (induction xs rule: written.induct) simp_all

lemma batch_png_path_good:
  assumes "good_rel rel"
  shows "\<exists>q. batch_png_path d out (d @ rel) = Inr q"
proof -
  from assms obtain stem where "last rel = stem @ ''.svg''"
    by (auto simp: good_rel_def matches_svg_stem)
  with assms show ?thesis
    by (simp add: batch_png_path_def good_rel_def relative_to_append with_suffix_svg)
qed

lemma loop_field:
  "scale (snd (convert_loop E d out n i fs c)) = scale c"
  "recursive (snd (convert_loop E d out n i fs c)) = recursive c"
  "page (snd (convert_loop E d out n i fs c)) = page c"
  "browser (snd (convert_loop E d out n i fs c)) = browser c"
  "playwright (snd (convert_loop E d out n i fs c)) = playwright c"
  by (induction fs arbitrary: c i; simp add: Let_def file_field emit_def split: sum.splits)+

lemma loop_trace:
  "\<exists>evs. trace (snd (convert_loop E d out n i fs c)) = trace c @ evs \<and>
         (\<forall>e\<in>set evs. kind_of e \<noteq> KStart \<and> kind_of e \<noteq> KStop)"
proof (induction fs arbitrary: c i)
  case Nil
  show ?case by simp
next
  case (Cons f fs)
  show ?case
  proof (cases "batch_png_path d out f")
    case (Inl e)
    then show ?thesis by simp
  next
    case (Inr png)
    let ?c1 = "emit (Print (MsgProgress i n (name f))) c"
    let ?c2 = "snd (convert_file E f png ?c1)"
    obtain evs1 where 1: "trace ?c2 = trace ?c1 @ ConvertFile f png # evs1"
      "\<forall>e\<in>set evs1. kind_of e = KStep"
      using file_trace by blast
    obtain evs2 where 2: "trace (snd (convert_loop E d out n (i + 1) fs ?c2)) = trace ?c2 @ evs2"
      "\<forall>e\<in>set evs2. kind_of e \<noteq> KStart \<and> kind_of e \<noteq> KStop"
      using Cons.IH by blast
    show ?thesis
      using Inr 1 2 by (auto simp: Let_def emit_def)
  qed
qed

lemma loop_good:
  assumes "\<forall>f\<in>set fs. \<exists>rel. f = d @ rel \<and> good_rel rel"
  shows "fst (convert_loop E d out n i fs c) = None \<and>
         processed (snd (convert_loop E d out n i fs c)) = processed c + length fs \<and>
         (\<exists>evs. trace (snd (convert_loop E d out n i fs c)) = trace c @ evs \<and>
                map (\<lambda>sp. Inr (snd sp)) (calls_of evs) = map (batch_png_path d out) fs \<and>
                map fst (calls_of evs) = fs)"
  using assms
proof (induction fs arbitrary: c i)
  case Nil
  show ?case by simp
next
  case (Cons f fs)
  then obtain rel where "f = d @ rel" "good_rel rel" by auto
  then obtain png where png: "batch_png_path d out f = Inr png"
    using batch_png_path_good by blast
  let ?c1 = "emit (Print (MsgProgress i n (name f))) c"
  let ?c2 = "snd (convert_file E f png ?c1)"
  let ?r = "convert_loop E d out n (i + 1) fs ?c2"
  have step: "convert_loop E d out n i (f # fs) c = ?r"
    using png by (simp add: Let_def)
  have ih: "fst ?r = None \<and> processed (snd ?r) = processed ?c2 + length fs \<and>
         (\<exists>evs. trace (snd ?r) = trace ?c2 @ evs \<and>
                map (\<lambda>sp. Inr (snd sp)) (calls_of evs) = map (batch_png_path d out) fs \<and>
                map fst (calls_of evs) = fs)"
    using Cons.IH Cons.prems by simp
  then obtain evs2 where 2: "trace (snd ?r) = trace ?c2 @ evs2"
      "map (\<lambda>sp. Inr (snd sp)) (calls_of evs2) = map (batch_png_path d out) fs"
      "map fst (calls_of evs2) = fs"
    by blast
  obtain evs1 where 1: "trace ?c2 = trace ?c1 @ ConvertFile f png # evs1"
      "\<forall>e\<in>set evs1. kind_of e = KStep"
    using file_trace by blast
  have p: "processed ?c2 = processed c + 1"
    using file_counts [of E f png ?c1] by (simp add: processed_def emit_def)
  have t: "trace (snd ?r) = trace c @ (Print (MsgProgress i n (name f)) # ConvertFile f png # evs1 @ evs2)"
    using 1 2 by (simp add: emit_def)
  have c: "calls_of (Print (MsgProgress i n (name f)) # ConvertFile f png # evs1 @ evs2)
         = (f, png) # calls_of evs2"
    using 1(2) by (simp add: calls_of_append calls_of_steps)
  show ?case
    unfolding step using ih p t c 2 png
    by (intro conjI exI [of _ "Print (MsgProgress i n (name f)) # ConvertFile f png # evs1 @ evs2"]) simp_all
qed

lemma get_svg_files_good:
  assumes "valid_env E" "f \<in> set (get_svg_files E c d)"
  shows "\<exists>rel. f = d @ rel \<and> good_rel rel"
proof (cases "tree_at E d")
  case None
  with assms(2) show ?thesis by (simp add: get_svg_files_def)
next
  case (Some t)
  with assms(1) have v: "valid_node t" by (auto simp: valid_env_def)
  show ?thesis
  proof (cases "recursive c")
    case True
    with assms(2) Some obtain rel where "f = d @ rel" "rel \<in> set (rglob_svg t)"
      by (auto simp: get_svg_files_def)
    with v show ?thesis using rglob_good(1) by blast
  next
    case False
    with assms(2) Some obtain rel where "f = d @ rel" "rel \<in> set (glob_svg t)"
      by (auto simp: get_svg_files_def)
    then show ?thesis
      using glob_entries_good by (cases t) (auto simp: glob_svg_def)
  qed
qed

lemma get_svg_files_recursive:
  "recursive c' = recursive c \<Longrightarrow> get_svg_files E c' d = get_svg_files E c d"
  by (cases "tree_at E d") (simp_all add: get_svg_files_def)

lemma is_dir_exists: "is_dir E d \<Longrightarrow> exists E d"
  by (auto simp: is_dir_def exists_def split: option.splits)

lemma batch_not_dir:
  "\<not> is_dir E d \<Longrightarrow> fst (convert_batch E d o_arg c) = None \<and>
     processed (snd (convert_batch E d o_arg c)) = processed c \<and>
     (\<exists>m. trace (snd (convert_batch E d o_arg c)) = trace c @ [Print m])"
  by (auto simp: convert_batch_def emit_def processed_def)

lemma batch_mkdir_fails:
  "is_dir E d \<Longrightarrow> mkdir E (default_output d o_arg) = Some e \<Longrightarrow>
     convert_batch E d o_arg c = (Some e, emit (MkDir (default_output d o_arg)) c)"
  by (auto simp: convert_batch_def default_output_def Let_def is_dir_exists split: option.splits)

lemma batch_empty:
  "is_dir E d \<Longrightarrow> mkdir E (default_output d o_arg) = None \<Longrightarrow> get_svg_files E c d = [] \<Longrightarrow>
     convert_batch E d o_arg c =
       (None, emit (Print MsgNoSvgFound) (emit (Print (MsgScanning d))
                (emit (MkDir (default_output d o_arg)) c)))"
  by (auto simp: convert_batch_def default_output_def Let_def is_dir_exists emit_def
        get_svg_files_def split: option.splits)

lemma batch_loop:
  "is_dir E d \<Longrightarrow> mkdir E (default_output d o_arg) = None \<Longrightarrow> get_svg_files E c d \<noteq> [] \<Longrightarrow>
     convert_batch E d o_arg c =
       convert_loop E d (default_output d o_arg) (length (get_svg_files E c d)) 1
         (get_svg_files E c d)
         (emit (Print (MsgScale (scale c)))
            (emit (Print (MsgOutputDir (default_output d o_arg)))
               (emit (Print (MsgFound (length (get_svg_files E c d))))
                  (emit (Print (MsgScanning d)) (emit (MkDir (default_output d o_arg)) c)))))"
  by (auto simp: convert_batch_def default_output_def Let_def is_dir_exists emit_def
        get_svg_files_def split: option.splits)

lemma batch_cases:
  obtains (not_dir) "\<not> is_dir E d"
  | (mkdir_fails) e where "is_dir E d" "mkdir E (default_output d o_arg) = Some e"
  | (empty) "is_dir E d" "mkdir E (default_output d o_arg) = None" "get_svg_files E c d = []"
  | (loop) "is_dir E d" "mkdir E (default_output d o_arg) = None" "get_svg_files E c d \<noteq> []"
  by (cases "mkdir E (default_output d o_arg)") auto

lemma balanced_batch: "balanced c (snd (convert_batch E d o_arg c))"
proof (cases rule: batch_cases [where E = E and d = d and o_arg = o_arg and c = c])
  case not_dir
  then show ?thesis
    by (auto simp: convert_batch_def balanced_def processed_def convert_calls_def emit_def)
next
  case (mkdir_fails e)
  then show ?thesis
    by (simp add: batch_mkdir_fails balanced_emit)
next
  case empty
  then show ?thesis
    by (simp add: batch_empty balanced_def processed_def convert_calls_def emit_def)
next
  case loop
  let ?c5 = "emit (Print (MsgScale (scale c)))
            (emit (Print (MsgOutputDir (default_output d o_arg)))
               (emit (Print (MsgFound (length (get_svg_files E c d))))
                  (emit (Print (MsgScanning d)) (emit (MkDir (default_output d o_arg)) c))))"
  have "balanced c ?c5"
    by (simp add: balanced_def processed_def convert_calls_def emit_def)
  moreover have "balanced ?c5 (snd (convert_loop E d (default_output d o_arg)
        (length (get_svg_files E c d)) 1 (get_svg_files E c d) ?c5))"
    by (rule balanced_loop)
  ultimately show ?thesis
    using loop by (simp add: batch_loop balanced_trans)
qed

lemma batch_total:
  assumes "valid_env E"
  shows "fst (convert_batch E d o_arg c) = (if is_dir E d then mkdir E (default_output d o_arg) else None)"
    and "fst (convert_batch E d o_arg c) = None \<Longrightarrow>
         processed (snd (convert_batch E d o_arg c)) = processed c + length (get_svg_files E c d)"
proof -
  have good: "\<forall>f\<in>set (get_svg_files E c d). \<exists>rel. f = d @ rel \<and> good_rel rel"
    using get_svg_files_good [OF assms] by blast
  have nd: "\<not> is_dir E d \<Longrightarrow> get_svg_files E c d = []"
    by (auto simp: get_svg_files_def is_dir_def glob_svg_def split: option.splits fsnode.splits)
  show "fst (convert_batch E d o_arg c) = (if is_dir E d then mkdir E (default_output d o_arg) else None)"
  proof (cases rule: batch_cases [where E = E and d = d and o_arg = o_arg and c = c])
    case not_dir
    then show ?thesis by (simp add: batch_not_dir)
  next
    case (mkdir_fails e)
    then show ?thesis by (simp add: batch_mkdir_fails)
  next
    case empty
    then show ?thesis by (simp add: batch_empty)
  next
    case loop
    then show ?thesis using loop_good [OF good] by (simp add: batch_loop)
  qed
  assume n: "fst (convert_batch E d o_arg c) = None"
  show "processed (snd (convert_batch E d o_arg c)) = processed c + length (get_svg_files E c d)"
  proof (cases rule: batch_cases [where E = E and d = d and o_arg = o_arg and c = c])
    case not_dir
    then show ?thesis using nd by (simp add: batch_not_dir)
  next
    case (mkdir_fails e)
    then show ?thesis using n by (simp add: batch_mkdir_fails)
  next
    case empty
    then show ?thesis by (simp add: batch_empty processed_def emit_def)
  next
    case loop
    then show ?thesis using loop_good [OF good] by (simp add: batch_loop processed_def emit_def)
  qed
qed

lemma quiet_refl: "quiet c c"
  by (simp add: quiet_def balanced_refl)

lemma quiet_trans:
  assumes "quiet a b" "quiet b c"
  shows "quiet a c"
proof -
  from assms obtain e1 e2 where
    "trace b = trace a @ e1" "\<forall>e\<in>set e1. kind_of e \<noteq> KStart \<and> kind_of e \<noteq> KStop"
    "trace c = trace b @ e2" "\<forall>e\<in>set e2. kind_of e \<noteq> KStart \<and> kind_of e \<noteq> KStop"
    unfolding quiet_def by blast
  then have "trace c = trace a @ (e1 @ e2) \<and>
      (\<forall>e\<in>set (e1 @ e2). kind_of e \<noteq> KStart \<and> kind_of e \<noteq> KStop)"
    by auto
  then have "\<exists>evs. trace c = trace a @ evs \<and>
      (\<forall>e\<in>set evs. kind_of e \<noteq> KStart \<and> kind_of e \<noteq> KStop)"
    by blast
  moreover have "balanced a c"
    using assms balanced_trans unfolding quiet_def by blast
  ultimately show ?thesis
    using assms unfolding quiet_def by simp
qed

lemma quiet_emit: "kind_of e = KPrint \<or> kind_of e = KStep \<Longrightarrow> quiet c (emit e c)"
  by (auto simp: quiet_def balanced_emit) (auto simp: emit_def)

lemma quiet_then_emit:
  "quiet c c' \<Longrightarrow> kind_of e = KPrint \<or> kind_of e = KStep \<Longrightarrow> quiet c (emit e c')"
  using quiet_emit quiet_trans by blast

lemma quiet_file: "quiet c (snd (convert_file E s p c))"
proof -
  obtain evs where "trace (snd (convert_file E s p c)) = trace c @ ConvertFile s p # evs"
    "\<forall>e\<in>set evs. kind_of e = KStep"
    using file_trace by blast
  then have "trace (snd (convert_file E s p c)) = trace c @ (ConvertFile s p # evs) \<and>
     (\<forall>e\<in>set (ConvertFile s p # evs). kind_of e \<noteq> KStart \<and> kind_of e \<noteq> KStop)"
    by simp
  then have "\<exists>evs. trace (snd (convert_file E s p c)) = trace c @ evs \<and>
     (\<forall>e\<in>set evs. kind_of e \<noteq> KStart \<and> kind_of e \<noteq> KStop)"
    by blast
  then show ?thesis
    unfolding quiet_def by (simp add: file_field balanced_file)
qed

lemma quiet_loop: "quiet c (snd (convert_loop E d out n i fs c))"
  unfolding quiet_def by (simp add: loop_field balanced_loop loop_trace)

lemma quiet_batch: "quiet c (snd (convert_batch E d o_arg c))"
proof (cases rule: batch_cases [where E = E and d = d and o_arg = o_arg and c = c])
  case not_dir
  then show ?thesis
    by (auto simp: convert_batch_def quiet_emit)
next
  case (mkdir_fails e)
  then show ?thesis by (simp add: batch_mkdir_fails quiet_emit)
next
  case empty
  then show ?thesis
    by (simp add: batch_empty quiet_then_emit quiet_refl)
next
  case loop
  let ?c5 = "emit (Print (MsgScale (scale c)))
            (emit (Print (MsgOutputDir (default_output d o_arg)))
               (emit (Print (MsgFound (length (get_svg_files E c d))))
                  (emit (Print (MsgScanning d)) (emit (MkDir (default_output d o_arg)) c))))"
  have "quiet c ?c5"
    by (simp add: quiet_then_emit quiet_refl)
  then show ?thesis
    using loop quiet_loop [of ?c5 E d] by (auto simp: batch_loop intro: quiet_trans)
qed

lemma quiet_single: "quiet c (snd (convert_single E s p_arg c))"
proof -
  have f: "quiet c (snd (convert_file E s png (emit (Print (MsgConverting (name s))) c)))" for png
    using quiet_emit [of "Print (MsgConverting (name s))" c] quiet_file quiet_trans by fastforce
  have g: "convert_file E s png (emit (Print (MsgConverting (name s))) c) = (r, c')
      \<Longrightarrow> quiet c (emit (Print m) c')" for png m r c'
    using f [of png] by (simp add: quiet_then_emit)
  show ?thesis
    by (auto simp: convert_single_def quiet_emit quiet_refl g split: sum.splits option.splits prod.splits)
qed

lemma quiet_summary: "quiet c (summary_if_any c)"
  by (simp add: summary_if_any_def print_summary_def quiet_emit quiet_refl)

lemma quiet_body: "quiet c (snd (main_body E a c))"
proof -
  have s: "quiet c (summary_if_any (snd (convert_single E s p c)))" for s p
    using quiet_single quiet_summary quiet_trans by blast
  have b: "quiet c (summary_if_any (snd (convert_batch E d p c)))" for d p
    using quiet_batch quiet_summary quiet_trans by blast
  have s': "quiet c (snd (convert_single E s p c))" for s p by (rule quiet_single)
  have b': "quiet c (snd (convert_batch E s p c))" for s p by (rule quiet_batch)
  show ?thesis
    unfolding main_body_def
    apply (simp add: quiet_emit split: prod.splits sum.splits option.splits)
    apply (intro conjI impI allI)
    using s s' b b' by (metis snd_conv)+
qed

lemma balanced_enter: "balanced c (snd (conv_enter E c))"
  by (simp add: conv_enter_def balanced_def processed_def convert_calls_def emit_def Let_def
        split: option.splits)

lemma balanced_exit: "balanced c (snd (conv_exit E c))"
  by (simp add: conv_exit_def balanced_def processed_def convert_calls_def emit_def Let_def
        split: option.splits prod.splits)

lemma enter_ok:
  "engine_ok E \<Longrightarrow>
   conv_enter E c =
     (None, c\<lparr>playwright := True, browser := True, page := True,
              trace := trace c @ [PlaywrightStart, BrowserLaunch, NewPage]\<rparr>)"
  by (simp add: conv_enter_def engine_ok_def emit_def)

lemma exit_ok:
  "engine_ok E \<Longrightarrow> page c \<Longrightarrow> browser c \<Longrightarrow> playwright c \<Longrightarrow>
   conv_exit E c =
     (stop_playwright E, c\<lparr>trace := trace c @ [PageClose, BrowserClose, PlaywrightStop]\<rparr>)"
  by (simp add: conv_exit_def engine_ok_def emit_def)

lemma main_balanced: "processed (snd (main E a)) = convert_calls (snd (main E a))"
proof -
  let ?c0 = "emit (Print MsgBanner) (init (scale_arg a) (\<not> no_recursive a))"
  have 0: "processed ?c0 = convert_calls ?c0"
    by (simp add: processed_def convert_calls_def emit_def init_def)
  have b: "balanced ?c0 (snd (main E a))"
  proof (cases "conv_enter E ?c0")
    case (Pair r1 c1)
    have b1: "balanced ?c0 c1" using balanced_enter [of ?c0 E] Pair by simp
    show ?thesis
    proof (cases r1)
      case (Some e)
      with Pair b1 show ?thesis by (simp add: main_def)
    next
      case None
      obtain out c2 where body: "main_body E a c1 = (out, c2)" by (cases "main_body E a c1")
      obtain r3 c3 where ex: "conv_exit E c2 = (r3, c3)" by (cases "conv_exit E c2")
      have b2: "balanced c1 c2" using quiet_body [of c1 E a] body by (simp add: quiet_def)
      have b3: "balanced c2 c3" using balanced_exit [of c2 E] ex by simp
      have b13: "balanced ?c0 c3" using b1 b2 b3 balanced_trans by blast
      then have b4: "balanced ?c0 (emit (Print MsgElapsed) c3)"
        using balanced_emit [of "Print MsgElapsed" c3] balanced_trans by fastforce
      show ?thesis
        using Pair None body ex b13 b4
        by (simp add: main_def split: option.splits outcome.splits)
    qed
  qed
  show ?thesis using 0 b by (simp add: balanced_def)
qed

lemma file_outcome:
  "(if fst (fst (convert_file E s p c))
    then success_count (snd (convert_file E s p c)) = success_count c + 1 \<and>
         fail_count (snd (convert_file E s p c)) = fail_count c \<and>
         failed_files (snd (convert_file E s p c)) = failed_files c
    else success_count (snd (convert_file E s p c)) = success_count c \<and>
         fail_count (snd (convert_file E s p c)) = fail_count c + 1 \<and>
         failed_files (snd (convert_file E s p c)) =
           failed_files c @ [(name s, snd (fst (convert_file E s p c)))])"
  by (cases rule: file_cases [of E s p c])
     (use try_field [of E s p "emit (ConvertFile s p) c"] in \<open>simp_all add: emit_def\<close>)

lemma sample_valid: "valid_env sample_env"
  by (simp add: valid_env_def sample_env_def sample_tree_def)

lemma sample_files:
  "get_svg_files sample_env (init s True) [''in''] =
     [[''in'', ''a.svg''], [''in'', ''b.svg''], [''in'', ''sub'', ''c.svg'']]"
  by (simp add: get_svg_files_def sample_env_def sample_tree_def init_def matches_svg_def
        less_eq_char_def less_char_def)

lemma calls_of_prints: "\<forall>e\<in>set evs. kind_of e \<noteq> KCall \<Longrightarrow> calls_of evs = []"
  by (induction evs rule: calls_of.induct) simp_all

lemma batch_calls:
  assumes "valid_env E" "is_dir E d" "mkdir E (default_output d o_arg) = None"
  shows "fst (convert_batch E d o_arg c) = None \<and>
         (\<exists>evs. trace (snd (convert_batch E d o_arg c)) = trace c @ evs \<and>
                map fst (calls_of evs) = get_svg_files E c d \<and>
                map (\<lambda>sp. Inr (snd sp)) (calls_of evs) =
                  map (batch_png_path d (default_output d o_arg)) (get_svg_files E c d))"
proof (cases "get_svg_files E c d = []")
  case True
  have "trace (snd (convert_batch E d o_arg c)) =
          trace c @ [MkDir (default_output d o_arg), Print (MsgScanning d), Print MsgNoSvgFound]"
    using assms True by (simp add: batch_empty emit_def)
  moreover have "calls_of [MkDir (default_output d o_arg), Print (MsgScanning d), Print MsgNoSvgFound] = []"
    by simp
  ultimately show ?thesis
    using assms True by (simp add: batch_empty)
next
  case False
  let ?out = "default_output d o_arg"
  let ?fs = "get_svg_files E c d"
  let ?pre = "[MkDir ?out, Print (MsgScanning d), Print (MsgFound (length ?fs)),
               Print (MsgOutputDir ?out), Print (MsgScale (scale c))]"
  let ?c5 = "emit (Print (MsgScale (scale c)))
            (emit (Print (MsgOutputDir ?out))
               (emit (Print (MsgFound (length ?fs)))
                  (emit (Print (MsgScanning d)) (emit (MkDir ?out) c))))"
  have good: "\<forall>f\<in>set ?fs. \<exists>rel. f = d @ rel \<and> good_rel rel"
    using get_svg_files_good [OF assms(1)] by blast
  have eq: "convert_batch E d o_arg c = convert_loop E d ?out (length ?fs) 1 ?fs ?c5"
    using assms False by (simp add: batch_loop)
  have t5: "trace ?c5 = trace c @ ?pre" by (simp add: emit_def)
  from loop_good [OF good, of E ?out "length ?fs" 1 ?c5]
  obtain evs where n: "fst (convert_loop E d ?out (length ?fs) 1 ?fs ?c5) = None"
    and t: "trace (snd (convert_loop E d ?out (length ?fs) 1 ?fs ?c5)) = trace ?c5 @ evs"
    and c1: "map (\<lambda>sp. Inr (snd sp)) (calls_of evs) = map (batch_png_path d ?out) ?fs"
    and c2: "map fst (calls_of evs) = ?fs"
    by blast
  have "trace (snd (convert_batch E d o_arg c)) = trace c @ (?pre @ evs)"
    using eq t t5 by simp
  moreover have "calls_of (?pre @ evs) = calls_of evs" by simp
  ultimately show ?thesis
    using eq n c1 c2 by (intro conjI exI [of _ "?pre @ evs"]) simp_all
qed

lemma try_mkdir_fails:
  "mkdir E (parent p) = Some e \<Longrightarrow> fst (convert_try E s p c) = Some e"
  by (simp add: convert_try_def)

lemma try_read_fails:
  "mkdir E (parent p) = None \<Longrightarrow> read_text E s = Inl e \<Longrightarrow> fst (convert_try E s p c) = Some e"
  by (simp add: convert_try_def)


lemma written_none: "\<forall>e\<in>set evs. kind_of e \<noteq> KStep \<Longrightarrow> written evs = []"
  by (induction evs rule: written.induct) simp_all

lemma enter_trace:
  "\<exists>evs. trace (snd (conv_enter E c)) = trace c @ evs \<and> (\<forall>e\<in>set evs. kind_of e = KStart)"
  by (simp add: conv_enter_def emit_def Let_def split: option.splits)

lemma exit_trace:
  "\<exists>evs. trace (snd (conv_exit E c)) = trace c @ evs \<and> (\<forall>e\<in>set evs. kind_of e = KStop)"
  by (simp add: conv_exit_def emit_def Let_def split: option.splits prod.splits)

lemma suffix_name: "suffix p \<noteq> [] \<Longrightarrow> name p \<noteq> []"
  by (auto simp: suffix_def rfind_dot_def Let_def split: option.splits if_splits)

lemma with_suffix_png: "name p \<noteq> [] \<Longrightarrow> \<exists>q. with_suffix p ''.png'' = Inr q"
  by (simp add: with_suffix_def Let_def)

lemma single_returns: "\<exists>ok. fst (convert_single E s p_arg c) = Inr ok"
proof (cases "lower (suffix s) = ''.svg''")
  case True
  then have "suffix s \<noteq> []" by (auto simp: lower_def)
  then obtain q where "with_suffix s ''.png'' = Inr q"
    using suffix_name with_suffix_png by blast
  then show ?thesis
    by (auto simp: convert_single_def split: option.splits prod.splits)
next
  case False
  then show ?thesis by (auto simp: convert_single_def)
qed

lemma single_not_svg:
  "exists E s \<Longrightarrow> lower (suffix s) \<noteq> ''.svg'' \<Longrightarrow>
   convert_single E s p_arg c = (Inr False, emit (Print (MsgNotSvg s)) c)"
  by (simp add: convert_single_def)

lemma is_file_exists: "is_file E p \<Longrightarrow> exists E p"
  by (simp add: is_file_def exists_def)

lemma is_file_not_dir: "is_file E p \<Longrightarrow> \<not> is_dir E p"
  by (simp add: is_file_def is_dir_def)

lemma not_exists: "\<not> exists E p \<Longrightarrow> \<not> is_file E p \<and> \<not> is_dir E p"
  by (auto simp: is_file_def is_dir_def exists_def)

lemma body_missing:
  "\<not> is_file E (input_path a) \<Longrightarrow> \<not> is_dir E (input_path a) \<Longrightarrow>
   main_body E a c = (SysExit 1, emit (Print (MsgPathMissing (input_path a))) c)"
  by (simp add: main_body_def)

lemma body_file:
  "is_file E (input_path a) \<Longrightarrow> fst (main_body E a c) = Returned"
  using single_returns [of E "input_path a" "output_path a" c]
  by (auto simp: main_body_def split: prod.splits sum.splits)

lemma body_dir:
  assumes "valid_env E" "is_dir E (input_path a)"
  shows "fst (main_body E a c) =
     (case mkdir E (default_output (input_path a) (output_path a)) of
        None \<Rightarrow> Returned | Some e \<Rightarrow> Raised e)"
proof -
  have nf: "\<not> is_file E (input_path a)"
    using assms(2) by (auto simp: is_file_def is_dir_def)
  have "fst (convert_batch E (input_path a) (output_path a) c) =
      mkdir E (default_output (input_path a) (output_path a))"
    using batch_total(1) [OF assms(1), of "input_path a" "output_path a" c] assms(2) by simp
  then show ?thesis
    using nf assms(2) by (auto simp: main_body_def split: prod.splits option.splits)
qed

lemma main_outcome:
  assumes "engine_ok E"
  shows "fst (main E a) =
     (case stop_playwright E of
        Some e \<Rightarrow> Raised e
      | None \<Rightarrow> fst (main_body E a
          (init (scale_arg a) (\<not> no_recursive a)
             \<lparr>playwright := True, browser := True, page := True,
               trace := [Print MsgBanner, PlaywrightStart, BrowserLaunch, NewPage]\<rparr>)))"
proof -
  let ?c0 = "emit (Print MsgBanner) (init (scale_arg a) (\<not> no_recursive a))"
  let ?c1 = "init (scale_arg a) (\<not> no_recursive a)
                \<lparr>playwright := True, browser := True, page := True,
                  trace := [Print MsgBanner, PlaywrightStart, BrowserLaunch, NewPage]\<rparr>"
  have en: "conv_enter E ?c0 = (None, ?c1)"
    using enter_ok [OF assms, of ?c0] by (simp add: emit_def init_def)
  obtain out c2 where body: "main_body E a ?c1 = (out, c2)" by (cases "main_body E a ?c1")
  have q: "quiet ?c1 c2" using quiet_body [of ?c1 E a] body by simp
  then have h: "page c2" "browser c2" "playwright c2"
    unfolding quiet_def by simp_all
  have ex: "conv_exit E c2 =
      (stop_playwright E, c2\<lparr>trace := trace c2 @ [PageClose, BrowserClose, PlaywrightStop]\<rparr>)"
    using exit_ok [OF assms h] .
  show ?thesis
    using en body ex
    by (cases "stop_playwright E"; cases out) (simp_all add: main_def)
qed

lemma main_missing:
  assumes "\<not> is_file E (input_path a)" "\<not> is_dir E (input_path a)"
  shows "exit_code (fst (main E a)) = 1 \<and> written (trace (snd (main E a))) = [] \<and>
         calls_of (trace (snd (main E a))) = []"
proof -
  let ?c0 = "emit (Print MsgBanner) (init (scale_arg a) (\<not> no_recursive a))"
  obtain r1 c1 where en: "conv_enter E ?c0 = (r1, c1)" by (cases "conv_enter E ?c0")
  obtain e1 where e1: "trace c1 = trace ?c0 @ e1" "\<forall>e\<in>set e1. kind_of e = KStart"
    using enter_trace [of E ?c0] en by auto
  let ?c2 = "emit (Print (MsgPathMissing (input_path a))) c1"
  obtain r3 c3 where ex: "conv_exit E ?c2 = (r3, c3)" by (cases "conv_exit E ?c2")
  obtain e3 where e3: "trace c3 = trace ?c2 @ e3" "\<forall>e\<in>set e3. kind_of e = KStop"
    using exit_trace [of E ?c2] ex by auto
  have t0: "trace ?c0 = [Print MsgBanner]" by (simp add: emit_def init_def)
  have w1: "written e1 = []" "calls_of e1 = []"
    using e1(2) by (simp_all add: written_none calls_of_prints)
  have w3: "written e3 = []" "calls_of e3 = []"
    using e3(2) by (simp_all add: written_none calls_of_prints)
  show ?thesis
  proof (cases r1)
    case (Some e)
    then have "main E a = (Raised e, c1)" using en by (simp add: main_def)
    then show ?thesis using e1(1) t0 w1 by (simp add: written_append calls_of_append)
  next
    case None
    have t3: "trace c3 = [Print MsgBanner] @ e1 @ [Print (MsgPathMissing (input_path a))] @ e3"
      using e1(1) e3(1) t0 by (simp add: emit_def)
    have "main E a = (case r3 of Some e \<Rightarrow> Raised e | None \<Rightarrow> SysExit 1, c3)"
      using None en ex assms by (simp add: main_def body_missing split: option.splits)
    then show ?thesis
      using t3 w1 w3 by (cases r3) (simp_all add: written_append calls_of_append)
  qed
qed

lemma sample_engine_ok: "engine_ok sample_env" "stop_playwright sample_env = None"
  by (simp_all add: engine_ok_def sample_env_def)

lemma readonly_engine_ok: "engine_ok readonly_env" "stop_playwright readonly_env = None"
  by (simp_all add: engine_ok_def readonly_env_def sample_env_def)

lemma readonly_valid: "valid_env readonly_env"
  by (simp add: valid_env_def readonly_env_def sample_env_def sample_tree_def)

lemma notes_suffix: "lower (suffix [''notes.txt'']) \<noteq> ''.svg''"
  by (simp add: suffix_def name_def is_absolute_def rfind_dot_def lower_def lower_char_def)

lemma vb_absent: "re_search s = None \<Longrightarrow> viewbox_size s = Inr (Fin 750, Fin 1000)"
  by (simp add: viewbox_size_def)


lemma vb_four: "re_search s = Some g \<Longrightarrow> py_split g = [a, b, w, h] \<Longrightarrow>
   viewbox_size s =
     (case py_float w of
        Inl e \<Rightarrow> Inl e
      | Inr x \<Rightarrow> (case py_float h of Inl e \<Rightarrow> Inl e | Inr y \<Rightarrow> Inr (x, y)))"
  by (simp add: viewbox_size_def eval_nat_numeral split: sum.splits)















lemma sample_entered:
  "snd (conv_enter sample_env (init k True)) =
     init k True \<lparr>playwright := True, browser := True, page := True,
                   trace := [PlaywrightStart, BrowserLaunch, NewPage]\<rparr>"
  using enter_ok [OF sample_engine_ok(1), of "init k True"] by (simp add: init_def)








lemma name_under:
  assumes "good_rel rel"
  shows "name (d @ rel) = last rel"
proof -
  from assms have r: "rel \<noteq> []" "hd rel \<noteq> ''/''" by (simp_all add: good_rel_def)
  have "\<not> (length (d @ rel) = (if is_absolute (d @ rel) then 1 else 0))"
  proof (cases d)
    case Nil
    then show ?thesis using r by (cases rel) (auto simp: is_absolute_def)
  next
    case (Cons a as)
    then show ?thesis using r by (cases rel) (auto simp: is_absolute_def)
  qed
  then show ?thesis using r by (simp add: name_def)
qed

lemma batch_png_path_under:
  assumes "good_rel rel"
  shows "batch_png_path d out (d @ rel) =
     Inr (if last rel = ''.svg'' then out @ butlast rel @ [''.svg.png'']
          else mirrored d out (d @ rel))"
proof -
  from assms have r: "rel \<noteq> []" "hd rel \<noteq> ''/''" "matches_svg (last rel)"
    by (simp_all add: good_rel_def)
  then obtain stem where st: "last rel = stem @ ''.svg''"
    by (auto simp: matches_svg_stem)
  let ?n = "if stem = [] then ''.svg.png'' else stem @ ''.png''"
  have na: "\<not> is_absolute (butlast rel @ [?n])"
  proof (cases "butlast rel")
    case Nil
    then show ?thesis by (auto simp: is_absolute_def)
  next
    case (Cons a as)
    then have "hd (butlast rel) = hd rel" using r(1) by (cases rel) (auto split: if_splits)
    then show ?thesis using Cons r(2) by (simp add: is_absolute_def)
  qed
  have b: "batch_png_path d out (d @ rel) = Inr (out @ butlast rel @ [?n])"
    using r st na by (simp add: batch_png_path_def relative_to_append with_suffix_svg joinpath_def)
  have m: "mirrored d out (d @ rel) = out @ butlast rel @ [stem @ ''.png'']"
    using st by (simp add: mirrored_def png_name_def)
  show ?thesis
    using b m st by auto
qed

lemma pairs_from_maps:
  assumes "map fst xs = fs" "map (\<lambda>sp. Inr (snd sp)) xs = map g fs"
    and "\<forall>f\<in>set fs. g f = Inr (h f)"
  shows "xs = map (\<lambda>f. (f, h f)) fs"
  using assms
proof (induction xs arbitrary: fs)
  case Nil
  then show ?case by simp
next
  case (Cons x xs)
  then obtain f fs' where fs: "fs = f # fs'" by (cases fs) auto
  with Cons.prems have "fst x = f" "Inr (snd x) = g f" "map fst xs = fs'"
    "map (\<lambda>sp. Inr (snd sp)) xs = map g fs'" "\<forall>f\<in>set fs'. g f = Inr (h f)" "g f = Inr (h f)"
    by auto
  then show ?case
    using Cons.IH [of fs'] fs by (cases x) auto
qed

lemma batch_destinations_lemma:
  assumes "valid_env E" "is_dir E d" "mkdir E (default_output d o_arg) = None"
  shows "\<exists>evs. trace (snd (convert_batch E d o_arg c)) = trace c @ evs \<and>
     calls_of evs = map (\<lambda>f. (f, destination d (default_output d o_arg) f)) (get_svg_files E c d)"
proof -
  let ?out = "default_output d o_arg"
  from batch_calls [OF assms, of c] obtain evs where
    t: "trace (snd (convert_batch E d o_arg c)) = trace c @ evs"
    and 1: "map fst (calls_of evs) = get_svg_files E c d"
    and 2: "map (\<lambda>sp. Inr (snd sp)) (calls_of evs) =
              map (batch_png_path d ?out) (get_svg_files E c d)"
    by blast
  have 3: "\<forall>f\<in>set (get_svg_files E c d). batch_png_path d ?out f = Inr (destination d ?out f)"
  proof
    fix f assume "f \<in> set (get_svg_files E c d)"
    then obtain rel where f: "f = d @ rel" "good_rel rel"
      using get_svg_files_good [OF assms(1)] by blast
    show "batch_png_path d ?out f = Inr (destination d ?out f)"
      using batch_png_path_under [OF f(2), of d ?out] name_under [OF f(2), of d] f(1)
      by (simp add: destination_def)
  qed
  from pairs_from_maps [OF 1 2 3] t show ?thesis by blast
qed

lemma default_output_sibling:
  assumes "d \<noteq> []" "d \<noteq> [''/'']" "last d \<noteq> ''png_output''"
  shows "sibling (default_output d None) d"
proof -
  have p: "parent d = butlast d"
    using assms(1,2) by (cases d) (auto simp: parent_def is_absolute_def)
  have na: "\<not> is_absolute [''png_output'']" by (simp add: is_absolute_def)
  have o: "default_output d None = butlast d @ [''png_output'']"
    using p na by (simp add: default_output_def joinpath_def)
  have po: "parent (butlast d @ [''png_output'']) = butlast d"
    by (cases "butlast d") (auto simp: parent_def is_absolute_def)
  have "butlast d @ [''png_output''] \<noteq> d"
    using assms(1,3) by (metis last_snoc)
  moreover have "length (butlast d @ [''png_output'']) = length d"
    using assms(1) by (cases d rule: rev_cases) simp_all
  ultimately have ni: "\<not> inside (butlast d @ [''png_output'']) d"
    by (simp add: inside_def)
  show ?thesis
    unfolding sibling_def o using p po ni by simp
qed

section \<open>The claims\<close>

text \<open>
  C1. Every call of \<^verbatim>\<open>convert_file\<close> returns one outcome and adds one to exactly one of
  the two counters, the one that matches the outcome; a failure adds one entry to
  \<^verbatim>\<open>failed_files\<close>. So \<^verbatim>\<open>success_count + fail_count\<close> grows with the number of
  calls of \<^verbatim>\<open>convert_file\<close>: after every prefix of the batch loop, after
  \<^verbatim>\<open>convert_batch\<close> and after the whole run of \<^verbatim>\<open>main\<close>, where both start at zero. On a
  file system with valid names the loop never raises: \<^verbatim>\<open>convert_batch\<close> returns unless
  the output root cannot be created, and when it returns the sum has grown by the number
  of enumerated files.
\<close>

theorem counters_count_calls:
  "processed (snd (convert_file E s p c)) = processed c + 1 \<and>
   convert_calls (snd (convert_file E s p c)) = convert_calls c + 1 \<and>
   (if fst (fst (convert_file E s p c))
    then success_count (snd (convert_file E s p c)) = success_count c + 1 \<and>
         fail_count (snd (convert_file E s p c)) = fail_count c \<and>
         failed_files (snd (convert_file E s p c)) = failed_files c
    else success_count (snd (convert_file E s p c)) = success_count c \<and>
         fail_count (snd (convert_file E s p c)) = fail_count c + 1 \<and>
         failed_files (snd (convert_file E s p c)) =
           failed_files c @ [(name s, snd (fst (convert_file E s p c)))]) \<and>
   (\<forall>k. balanced c (snd (convert_loop E d out n i (take k fs) c))) \<and>
   balanced c (snd (convert_batch E d o_arg c)) \<and>
   (valid_env E \<longrightarrow>
      fst (convert_batch E d o_arg c) =
        (if is_dir E d then mkdir E (default_output d o_arg) else None)) \<and>
   (valid_env E \<longrightarrow> fst (convert_batch E d o_arg c) = None \<longrightarrow>
      processed (snd (convert_batch E d o_arg c)) =
        processed c + length (get_svg_files E c d)) \<and>
   processed (snd (main E a)) = convert_calls (snd (main E a))"
  using file_counts [of E s p c] file_calls [of E s p c] file_outcome [of E s p c]
    balanced_loop [of c E d out n i] balanced_batch [of c E d o_arg]
    batch_total [of E d o_arg c] main_balanced [of E a]
  by (simp add: processed_def)

theorem counters_count_calls_witness:
  "valid_env sample_env \<and>
   fst (convert_batch sample_env [''in''] None (init (Fin 1) True)) = None \<and>
   processed (snd (convert_batch sample_env [''in''] None (init (Fin 1) True))) = 3"
proof -
  have d: "is_dir sample_env [''in'']"
    by (simp add: is_dir_def sample_env_def sample_tree_def)
  have m: "mkdir sample_env p = None" for p
    by (simp add: sample_env_def)
  have p: "processed (init (Fin 1) True) = 0"
    by (simp add: processed_def init_def)
  show ?thesis
    using counters_count_calls [of sample_env _ _ "init (Fin 1) True" "[''in'']" _ _ _ _ None]
      sample_valid sample_files [of "Fin 1"] d m p
    by simp
qed

text \<open>
  C4. An exception that ends the \<^verbatim>\<open>try\<close> of \<^verbatim>\<open>convert_file\<close> does not leave the call: the
  call returns \<^verbatim>\<open>(False, str(e))\<close>, adds one to \<^verbatim>\<open>fail_count\<close> only, and appends the
  name of the source file with the message to \<^verbatim>\<open>failed_files\<close>; so it is when creating
  the destination directory fails and when reading the source fails. On a file system
  with valid names, once the output root is created, \<^verbatim>\<open>convert_batch\<close> returns and has
  called \<^verbatim>\<open>convert_file\<close> on every enumerated file, in order, whatever the jobs did.
  Signals outside \<^verbatim>\<open>Exception\<close>, such as a keyboard interrupt, are not modelled.
\<close>

theorem job_exception_is_recorded:
  "(fst (convert_try E s p (emit (ConvertFile s p) c)) = Some e \<longrightarrow>
      fst (convert_file E s p c) = (False, str_exn e) \<and>
      fail_count (snd (convert_file E s p c)) = fail_count c + 1 \<and>
      success_count (snd (convert_file E s p c)) = success_count c \<and>
      failed_files (snd (convert_file E s p c)) = failed_files c @ [(name s, str_exn e)]) \<and>
   (mkdir E (parent p) = Some e \<longrightarrow> fst (convert_file E s p c) = (False, str_exn e)) \<and>
   (mkdir E (parent p) = None \<longrightarrow> read_text E s = Inl e \<longrightarrow>
      fst (convert_file E s p c) = (False, str_exn e)) \<and>
   (valid_env E \<longrightarrow> is_dir E d \<longrightarrow> mkdir E (default_output d o_arg) = None \<longrightarrow>
      fst (convert_batch E d o_arg c) = None \<and>
      (\<exists>evs. trace (snd (convert_batch E d o_arg c)) = trace c @ evs \<and>
             map fst (calls_of evs) = get_svg_files E c d))"
proof -
  have a: "fst (convert_try E s p (emit (ConvertFile s p) c)) = Some e \<Longrightarrow>
      fst (convert_file E s p c) = (False, str_exn e) \<and>
      fail_count (snd (convert_file E s p c)) = fail_count c + 1 \<and>
      success_count (snd (convert_file E s p c)) = success_count c \<and>
      failed_files (snd (convert_file E s p c)) = failed_files c @ [(name s, str_exn e)]"
    by (cases rule: file_cases [of E s p c])
       (use try_field [of E s p "emit (ConvertFile s p) c"] in \<open>simp_all add: emit_def\<close>)
  have b: "mkdir E (parent p) = Some e \<Longrightarrow> fst (convert_file E s p c) = (False, str_exn e)"
    using a try_mkdir_fails by blast
  have c: "mkdir E (parent p) = None \<Longrightarrow> read_text E s = Inl e \<Longrightarrow>
      fst (convert_file E s p c) = (False, str_exn e)"
    using a try_read_fails by blast
  show ?thesis
    using a b c batch_calls [of E d o_arg c] by blast
qed

theorem job_exception_is_recorded_witness:
  "fst (convert_try sample_env [''in'', ''b.svg''] [''png_output'', ''b.png'']
          (emit (ConvertFile [''in'', ''b.svg''] [''png_output'', ''b.png'']) (init (Fin 1) True)))
     = Some (OSError ''Permission denied'') \<and>
   fst (convert_file sample_env [''in'', ''b.svg''] [''png_output'', ''b.png''] (init (Fin 1) True))
     = (False, ''Permission denied'') \<and>
   valid_env sample_env \<and> is_dir sample_env [''in''] \<and>
   mkdir sample_env (default_output [''in''] None) = None \<and>
   fst (convert_batch sample_env [''in''] None (init (Fin 1) True)) = None"
proof -
  have t: "fst (convert_try sample_env [''in'', ''b.svg''] [''png_output'', ''b.png'']
          (emit (ConvertFile [''in'', ''b.svg''] [''png_output'', ''b.png'']) (init (Fin 1) True)))
     = Some (OSError ''Permission denied'')"
    by (simp add: convert_try_def sample_env_def)
  have d: "is_dir sample_env [''in'']"
    by (simp add: is_dir_def sample_env_def sample_tree_def)
  have m: "mkdir sample_env q = None" for q
    by (simp add: sample_env_def)
  show ?thesis
    using job_exception_is_recorded [of sample_env "[''in'', ''b.svg'']" "[''png_output'', ''b.png'']"
        "init (Fin 1) True" "OSError ''Permission denied''" "[''in'']" None]
      t d m sample_valid
    by simp
qed



text \<open>
  C5, as stated, fails: on the regular file \<^verbatim>\<open>notes.txt\<close>, which exists and is not a
  vector file, the run ends with exit code 0. \<^verbatim>\<open>convert_single\<close> returns \<^verbatim>\<open>False\<close> and
  \<^verbatim>\<open>main\<close> drops the result.
\<close>

theorem not_svg_exits_zero:
  "is_file sample_env [''notes.txt''] \<and> lower (suffix [''notes.txt'']) \<noteq> ''.svg'' \<and>
   exit_code (fst (main sample_env
     \<lparr>input_path = [''notes.txt''], output_path = None, scale_arg = Fin 1,
        no_recursive = False\<rparr>)) = 0"
proof -
  have f: "is_file sample_env [''notes.txt'']"
    by (simp add: is_file_def sample_env_def)
  then show ?thesis
    using notes_suffix by (simp add: main_outcome sample_engine_ok body_file)
qed

text \<open>
  C5, amended. In single-file mode on a regular file whose suffix is not \<^verbatim>\<open>.svg\<close> in any
  letter case, the error is reported, nothing is converted and, the engine starting and
  stopping, the run returns: the exit code is 0.
\<close>

theorem not_svg_is_reported:
  "engine_ok E \<longrightarrow> stop_playwright E = None \<longrightarrow> is_file E (input_path a) \<longrightarrow>
   lower (suffix (input_path a)) \<noteq> ''.svg'' \<longrightarrow>
     fst (main E a) = Returned \<and> exit_code (fst (main E a)) = 0 \<and>
     trace (snd (main E a)) =
       [Print MsgBanner, PlaywrightStart, BrowserLaunch, NewPage,
        Print (MsgNotSvg (input_path a)),
        PageClose, BrowserClose, PlaywrightStop, Print MsgElapsed]"
  by (simp add: main_def conv_enter_def conv_exit_def main_body_def single_not_svg
        is_file_exists engine_ok_def emit_def init_def summary_if_any_def)

theorem not_svg_is_reported_witness:
  "engine_ok sample_env \<and> stop_playwright sample_env = None \<and>
   is_file sample_env [''notes.txt''] \<and> lower (suffix [''notes.txt'']) \<noteq> ''.svg'' \<and>
   trace (snd (main sample_env
     \<lparr>input_path = [''notes.txt''], output_path = None, scale_arg = Fin 1,
        no_recursive = False\<rparr>)) =
       [Print MsgBanner, PlaywrightStart, BrowserLaunch, NewPage,
        Print (MsgNotSvg [''notes.txt'']),
        PageClose, BrowserClose, PlaywrightStop, Print MsgElapsed]"
proof -
  have f: "is_file sample_env [''notes.txt'']"
    by (simp add: is_file_def sample_env_def)
  show ?thesis
    using not_svg_is_reported [of sample_env
        "\<lparr>input_path = [''notes.txt''], output_path = None, scale_arg = Fin 1,
          no_recursive = False\<rparr>"]
      f notes_suffix sample_engine_ok
    by simp
qed

text \<open>
  C6, as stated, fails in its second half: an input path that exists does not make the
  exit code 0. The directory \<^verbatim>\<open>in\<close> exists, but the output root cannot be created, the
  exception of \<^verbatim>\<open>mkdir\<close> at line 266 leaves \<^verbatim>\<open>main\<close>, and the exit code is 1. The device
  \<^verbatim>\<open>/dev/null\<close> exists, but is neither a regular file nor a directory, and \<^verbatim>\<open>main\<close> takes
  the branch of line 372.
\<close>

theorem existing_input_exits_one:
  "exists readonly_env [''in''] \<and>
   exit_code (fst (main readonly_env
     \<lparr>input_path = [''in''], output_path = None, scale_arg = Fin 1,
        no_recursive = False\<rparr>)) = 1 \<and>
   exists sample_env [''/'', ''dev'', ''null''] \<and>
   exit_code (fst (main sample_env
     \<lparr>input_path = [''/'', ''dev'', ''null''], output_path = None, scale_arg = Fin 1,
        no_recursive = False\<rparr>)) = 1"
proof -
  have d: "is_dir readonly_env [''in'']"
    by (simp add: is_dir_def readonly_env_def sample_env_def sample_tree_def)
  have m: "mkdir readonly_env q = Some (OSError ''Permission denied'')" for q
    by (simp add: readonly_env_def)
  have 1: "exit_code (fst (main readonly_env
     \<lparr>input_path = [''in''], output_path = None, scale_arg = Fin 1,
        no_recursive = False\<rparr>)) = 1"
    using d m readonly_valid by (simp add: main_outcome readonly_engine_ok body_dir)
  have n: "\<not> is_file sample_env [''/'', ''dev'', ''null'']" "\<not> is_dir sample_env [''/'', ''dev'', ''null'']"
    by (simp_all add: is_file_def is_dir_def sample_env_def)
  have 2: "exit_code (fst (main sample_env
     \<lparr>input_path = [''/'', ''dev'', ''null''], output_path = None, scale_arg = Fin 1,
        no_recursive = False\<rparr>)) = 1"
    using n by (simp add: main_missing)
  have 3: "exists readonly_env [''in'']" using d by (rule is_dir_exists)
  have 4: "exists sample_env [''/'', ''dev'', ''null'']"
    by (simp add: exists_def sample_env_def)
  show ?thesis using 1 2 3 4 by simp
qed

text \<open>
  C6, amended. When the input path is neither a regular file nor a directory, in
  particular when it does not exist, the exit code is 1, \<^verbatim>\<open>convert_file\<close> is never called
  and no output file is written. When it is a regular file, or a directory whose output
  root can be created, and the engine starts and stops, the exit code is 0 whatever the
  jobs do.
\<close>

theorem exit_code_of_run:
  "(\<not> is_file E (input_path a) \<longrightarrow> \<not> is_dir E (input_path a) \<longrightarrow>
      exit_code (fst (main E a)) = 1 \<and> written (trace (snd (main E a))) = [] \<and>
      calls_of (trace (snd (main E a))) = []) \<and>
   (\<not> exists E (input_path a) \<longrightarrow>
      exit_code (fst (main E a)) = 1 \<and> written (trace (snd (main E a))) = []) \<and>
   (valid_env E \<longrightarrow> engine_ok E \<longrightarrow> stop_playwright E = None \<longrightarrow>
    is_file E (input_path a) \<or>
    is_dir E (input_path a) \<and>
      mkdir E (default_output (input_path a) (output_path a)) = None \<longrightarrow>
      exit_code (fst (main E a)) = 0)"
proof -
  have 1: "\<not> is_file E (input_path a) \<Longrightarrow> \<not> is_dir E (input_path a) \<Longrightarrow>
      exit_code (fst (main E a)) = 1 \<and> written (trace (snd (main E a))) = [] \<and>
      calls_of (trace (snd (main E a))) = []"
    by (rule main_missing)
  have 2: "\<not> exists E (input_path a) \<Longrightarrow>
      exit_code (fst (main E a)) = 1 \<and> written (trace (snd (main E a))) = []"
    using 1 not_exists by blast
  have 3: "valid_env E \<Longrightarrow> engine_ok E \<Longrightarrow> stop_playwright E = None \<Longrightarrow>
    is_file E (input_path a) \<or>
    is_dir E (input_path a) \<and>
      mkdir E (default_output (input_path a) (output_path a)) = None \<Longrightarrow>
      exit_code (fst (main E a)) = 0"
    by (auto simp: main_outcome body_file body_dir)
  show ?thesis using 1 2 3 by blast
qed

theorem exit_code_of_run_witness:
  "\<not> exists sample_env [''nope''] \<and>
   exit_code (fst (main sample_env
     \<lparr>input_path = [''nope''], output_path = None, scale_arg = Fin 1,
        no_recursive = False\<rparr>)) = 1 \<and>
   valid_env sample_env \<and> engine_ok sample_env \<and> stop_playwright sample_env = None \<and>
   is_dir sample_env [''in''] \<and> mkdir sample_env (default_output [''in''] None) = None \<and>
   exit_code (fst (main sample_env
     \<lparr>input_path = [''in''], output_path = None, scale_arg = Fin 1,
        no_recursive = False\<rparr>)) = 0"
proof -
  have n: "\<not> exists sample_env [''nope'']"
    by (simp add: exists_def sample_env_def)
  have d: "is_dir sample_env [''in'']"
    by (simp add: is_dir_def sample_env_def sample_tree_def)
  have m: "mkdir sample_env q = None" for q
    by (simp add: sample_env_def)
  show ?thesis
    using exit_code_of_run [of sample_env
        "\<lparr>input_path = [''nope''], output_path = None, scale_arg = Fin 1, no_recursive = False\<rparr>"]
      exit_code_of_run [of sample_env
        "\<lparr>input_path = [''in''], output_path = None, scale_arg = Fin 1, no_recursive = False\<rparr>"]
      n d m sample_valid sample_engine_ok
    by simp
qed

text \<open>
  C2. The claim holds where the viewBox is absent, where it has another number of tokens
  than four and where it has four numeric tokens (lemmas \<open>vb_absent\<close>, \<open>vb_count\<close>,
  \<open>vb_four\<close>). It fails on four tokens of which the third or fourth is no number: the
  comment at line 139 promises the default size for a viewBox that cannot be parsed,
  but \<^verbatim>\<open>float\<close> raises, the job fails with that message and nothing is written.
\<close>

theorem non_numeric_viewbox_fails:
  "viewbox_size ''<svg viewBox=\"0 0 abc def\"></svg>'' =
     Inl (ValueError (''could not convert string to float: '' @ [CHR 0x27] @ ''abc'' @ [CHR 0x27])) \<and>
   fst (convert_file sample_env [''bad.svg''] [''bad.png'']
          (snd (conv_enter sample_env (init (Fin 1) True)))) =
     (False, ''could not convert string to float: '' @ [CHR 0x27] @ ''abc'' @ [CHR 0x27]) \<and>
   written (trace (snd (convert_file sample_env [''bad.svg''] [''bad.png'']
          (snd (conv_enter sample_env (init (Fin 1) True)))))) = []"
proof -
  have v: "viewbox_size ''<svg viewBox=\"0 0 abc def\"></svg>'' =
     Inl (ValueError (''could not convert string to float: '' @ [CHR 0x27] @ ''abc'' @ [CHR 0x27]))"
    by (simp add: viewbox_size_def match_here_def is_quote_def py_split_def is_space_def
        py_float_def parse_number_def digitpart_def digit_val_def digits_val_def
        parse_exponent_def lower_char_def)
  have r: "read_text sample_env [''bad.svg''] = Inr ''<svg viewBox=\"0 0 abc def\"></svg>''"
    by (simp add: sample_env_def)
  have m: "mkdir sample_env q = None" for q
    by (simp add: sample_env_def)
  show ?thesis
    unfolding sample_entered using v r m
    by (simp add: convert_file_def convert_try_def emit_def Let_def init_def)
qed







text \<open>
  C7, as stated, fails twice. For the input directory \<^verbatim>\<open>.\<close>, whose \<^verbatim>\<open>parent\<close> is \<^verbatim>\<open>.\<close>
  itself, the default output root is \<^verbatim>\<open>png_output\<close> inside the input directory, no
  sibling of it. And for a source whose whole name is \<^verbatim>\<open>.svg\<close>, which the pattern
  \<^verbatim>\<open>*.svg\<close> matches, \<^verbatim>\<open>with_suffix\<close> finds no suffix to replace and appends: the
  destination is \<^verbatim>\<open>.svg.png\<close>, not \<^verbatim>\<open>.png\<close>.
\<close>

theorem default_root_inside_input:
  "default_output [] None = [''png_output''] \<and> inside (default_output [] None) [] \<and>
   \<not> sibling (default_output [] None) [] \<and>
   matches_svg ''.svg'' \<and>
   batch_png_path [''in''] [''out''] [''in'', ''.svg''] = Inr [''out'', ''.svg.png''] \<and>
   mirrored [''in''] [''out''] [''in'', ''.svg''] = [''out'', ''.png'']"
  by (simp add: default_output_def parent_def joinpath_def is_absolute_def inside_def sibling_def
       matches_svg_def batch_png_path_def relative_to_def with_suffix_def suffix_def name_def
       rfind_dot_def mirrored_def png_name_def)

text \<open>
  C7, amended. On a file system with valid names, once the output root is created, a
  batch calls \<^verbatim>\<open>convert_file\<close> on every enumerated source, in order, with the output root
  joined with the path of the source relative to the input directory, in whose last name
  \<^verbatim>\<open>.png\<close> replaces \<^verbatim>\<open>.svg\<close>; only to a source whose whole name is \<^verbatim>\<open>.svg\<close> is
  \<^verbatim>\<open>.png\<close> appended. With no output directory given, the output root is
  \<^verbatim>\<open>png_output\<close> under the \<^verbatim>\<open>parent\<close> of the input path: a sibling of the input directory
  when the input path ends in a name other than \<^verbatim>\<open>png_output\<close> and \<^verbatim>\<open>..\<close>, a directory
  inside the input directory when the input path is \<^verbatim>\<open>.\<close> or \<^verbatim>\<open>/\<close>.
\<close>

theorem batch_destinations:
  "(valid_env E \<longrightarrow> is_dir E d \<longrightarrow> mkdir E (default_output d o_arg) = None \<longrightarrow>
      (\<exists>evs. trace (snd (convert_batch E d o_arg c)) = trace c @ evs \<and>
         calls_of evs =
           map (\<lambda>f. (f, destination d (default_output d o_arg) f)) (get_svg_files E c d))) \<and>
   (name f \<noteq> ''.svg'' \<longrightarrow> destination d out f = mirrored d out f) \<and>
   default_output d (Some out) = out \<and>
   default_output d None = joinpath (parent d) [''png_output''] \<and>
   (d = [] \<or> d = [''/''] \<longrightarrow> default_output d None = d @ [''png_output'']) \<and>
   (d \<noteq> [] \<longrightarrow> d \<noteq> [''/''] \<longrightarrow> last d \<noteq> ''png_output'' \<longrightarrow> last d \<noteq> ''..'' \<longrightarrow>
      sibling (default_output d None) d \<and> name (default_output d None) = ''png_output'')"
proof -
  have 1: "valid_env E \<Longrightarrow> is_dir E d \<Longrightarrow> mkdir E (default_output d o_arg) = None \<Longrightarrow>
      (\<exists>evs. trace (snd (convert_batch E d o_arg c)) = trace c @ evs \<and>
         calls_of evs =
           map (\<lambda>f. (f, destination d (default_output d o_arg) f)) (get_svg_files E c d))"
    by (rule batch_destinations_lemma)
  have 2: "name f \<noteq> ''.svg'' \<Longrightarrow> destination d out f = mirrored d out f"
    by (simp add: destination_def)
  have 3: "default_output d (Some out) = out"
    "default_output d None = joinpath (parent d) [''png_output'']"
    by (simp_all add: default_output_def)
  have 4: "d = [] \<or> d = [''/''] \<Longrightarrow> default_output d None = d @ [''png_output'']"
    by (auto simp: default_output_def parent_def joinpath_def is_absolute_def)
  have 5: "name (default_output d None) = ''png_output''"
    by (cases "parent d")
       (auto simp: default_output_def joinpath_def is_absolute_def name_def)
  have 6: "d \<noteq> [] \<Longrightarrow> d \<noteq> [''/''] \<Longrightarrow> last d \<noteq> ''png_output'' \<Longrightarrow>
      sibling (default_output d None) d"
    by (rule default_output_sibling)
  show ?thesis
    using 1 2 3 4 5 6 by blast
qed

theorem batch_destinations_witness:
  "valid_env sample_env \<and> is_dir sample_env [''in''] \<and>
   mkdir sample_env (default_output [''in''] None) = None \<and>
   (\<exists>evs. trace (snd (convert_batch sample_env [''in''] None (init (Fin 1) True))) = evs \<and>
      calls_of evs =
        [([''in'', ''a.svg''], [''png_output'', ''a.png'']),
         ([''in'', ''b.svg''], [''png_output'', ''b.png'']),
         ([''in'', ''sub'', ''c.svg''], [''png_output'', ''sub'', ''c.png''])]) \<and>
   sibling (default_output [''in''] None) [''in'']"
proof -
  let ?c = "init (Fin 1) True"
  have d: "is_dir sample_env [''in'']"
    by (simp add: is_dir_def sample_env_def sample_tree_def)
  have m: "mkdir sample_env q = None" for q
    by (simp add: sample_env_def)
  have o: "default_output [''in''] None = [''png_output'']"
    by (simp add: default_output_def parent_def joinpath_def is_absolute_def)
  have t: "trace ?c = []" by (simp add: init_def)
  have ds: "destination [''in''] [''png_output''] [''in'', ''a.svg''] = [''png_output'', ''a.png'']"
    "destination [''in''] [''png_output''] [''in'', ''b.svg''] = [''png_output'', ''b.png'']"
    "destination [''in''] [''png_output''] [''in'', ''sub'', ''c.svg''] =
       [''png_output'', ''sub'', ''c.png'']"
    by (simp_all add: destination_def mirrored_def png_name_def name_def is_absolute_def)
  note th = batch_destinations [where E = sample_env and d = "[''in'']" and o_arg = None
      and c = ?c and f = "[''in'', ''a.svg'']" and out = "[''png_output'']"]
  have h: "[''in''] \<noteq> ([] :: path)" "[''in''] \<noteq> [''/'']"
    "last [''in''] \<noteq> ''png_output''" "last [''in''] \<noteq> ''..''"
    by simp_all
  have s: "sibling (default_output [''in''] None) [''in'']"
    using th h by blast
  have "\<exists>evs. trace (snd (convert_batch sample_env [''in''] None ?c)) = trace ?c @ evs \<and>
         calls_of evs =
           map (\<lambda>f. (f, destination [''in''] (default_output [''in''] None) f))
             (get_svg_files sample_env ?c [''in''])"
    using conjunct1 [OF th] sample_valid d m [of "default_output [''in''] None"] by blast
  then have "\<exists>evs. trace (snd (convert_batch sample_env [''in''] None ?c)) = evs \<and>
      calls_of evs =
        [([''in'', ''a.svg''], [''png_output'', ''a.png'']),
         ([''in'', ''b.svg''], [''png_output'', ''b.png'']),
         ([''in'', ''sub'', ''c.svg''], [''png_output'', ''sub'', ''c.png''])]"
    unfolding o sample_files t using ds by simp
  then show ?thesis
    using sample_valid d m s by blast
qed



end
